theory Spec2Isabelle
  imports Complex_Main "HOL-Library.Multiset" "HOL-Library.List_Lexorder" "HOL-Library.Char_ord"
    "HOL-Library.Log_Nat"
begin

section \<open>Common Python notions\<close>

text \<open>
  The two scripts are straight-line batch programs. Each is embedded as a function from
  its inputs (command line, the rows the CSV reader yields) to the effects it has
  (lines printed, figures saved) and the way it ends. Python exceptions are values of
  \<open>error\<close>. Python floats are idealised as rationals: sums, quotients and differences
  are exact. Where a float is printed, the digits are those of the float64 nearest to
  the exact value.
\<close>

datatype error = KeyError | AttributeError | TypeError | ValueError
  | ZeroDivisionError | OSError

text \<open>How a run ends: falling off the end of \<open>main\<close>, \<open>sys.exit(n)\<close>, or an
  uncaught exception.\<close>

datatype outcome = Returned | SysExit nat | Raised error

fun exit_status :: "outcome \<Rightarrow> nat" where
  "exit_status Returned = 0"
| "exit_status (SysExit n) = n"
| "exit_status (Raised e) = 1"

text \<open>A cell of a \<open>csv.DictReader\<close> row: a string, or \<open>None\<close> when the line is
  shorter than the header.\<close>

datatype pyval = PyNone | PyStr string

type_synonym row = "string \<Rightarrow> pyval option"

definition get_field :: "row \<Rightarrow> string \<Rightarrow> error + pyval" where
  "get_field r k = (case r k of None \<Rightarrow> Inl KeyError | Some v \<Rightarrow> Inr v)"

subsection \<open>Strings\<close>

text \<open>\<open>s.replace(old, new)\<close>: every non-overlapping occurrence, from the left.\<close>

function replace_ne :: "string \<Rightarrow> string \<Rightarrow> string \<Rightarrow> string" where
  "replace_ne old new [] = []"
| "replace_ne old new (c # cs) =
     (if old \<noteq> [] \<and> take (length old) (c # cs) = old
      then new @ replace_ne old new (drop (length old) (c # cs))
      else c # replace_ne old new cs)"
  by pat_completeness auto
termination
  by (relation "measure (\<lambda>(old, new, s). length s)") auto

definition replace_str :: "string \<Rightarrow> string \<Rightarrow> string \<Rightarrow> string" where
  "replace_str old new s =
     (if old = [] then new @ concat (map (\<lambda>c. c # new) s) else replace_ne old new s)"

text \<open>\<open>s.split(sep)\<close> for a one-character separator.\<close>

fun split_on :: "char \<Rightarrow> string \<Rightarrow> string list" where
  "split_on sep [] = [[]]"
| "split_on sep (c # cs) =
     (if c = sep then [] # split_on sep cs
      else (case split_on sep cs of [] \<Rightarrow> [[c]] | p # ps \<Rightarrow> (c # p) # ps))"

definition ljust :: "nat \<Rightarrow> char \<Rightarrow> string \<Rightarrow> string" where
  "ljust n c s = s @ replicate (n - length s) c"

subsection \<open>Date-times\<close>

text \<open>
  A \<open>datetime\<close> is naive (wall-clock microseconds) or aware (microseconds of the UTC
  instant). Equality and hashing of aware values go by the instant, a naive value never
  equals an aware one, and ordering or subtracting a naive and an aware value raises
  \<open>TypeError\<close>.
\<close>

datatype datetime = Naive int | Aware int

fun dt_micros :: "datetime \<Rightarrow> int" where
  "dt_micros (Naive n) = n"
| "dt_micros (Aware n) = n"

fun is_aware :: "datetime \<Rightarrow> bool" where
  "is_aware (Naive n) = False"
| "is_aware (Aware n) = True"

text \<open>\<open>(a - b).total_seconds()\<close>\<close>

definition dt_sub_seconds :: "datetime \<Rightarrow> datetime \<Rightarrow> error + rat" where
  "dt_sub_seconds a b =
     (if is_aware a = is_aware b
      then Inr (of_int (dt_micros a - dt_micros b) / 1000000)
      else Inl TypeError)"

text \<open>\<open>sorted(keys)\<close> on date-times: any comparison of a naive with an aware value
  raises, and sorting a list that holds both kinds makes one.\<close>

definition sorted_dt :: "datetime list \<Rightarrow> error + datetime list" where
  "sorted_dt ts =
     (if (\<exists>a \<in> set ts. \<exists>b \<in> set ts. is_aware a \<noteq> is_aware b) then Inl TypeError
      else Inr (sort_key dt_micros ts))"

section \<open>Plotter A: \<open>plot_bench_metrics.py\<close>\<close>

subsection \<open>Timestamp parsing (lines 34-39)\<close>

definition normalize_ts :: "string \<Rightarrow> error + string" where
  "normalize_ts raw =
     (let ts_str = replace_str ''Z'' ''+00:00'' raw in
      if CHR ''.'' \<in> set ts_str \<and> CHR ''+'' \<in> set ts_str then
        (case split_on CHR ''.'' ts_str of
           [base, rest] \<Rightarrow>
             (case split_on CHR ''+'' rest of
                [microsec, tz] \<Rightarrow>
                  Inr (base @ ''.'' @ ljust 6 CHR ''0'' (take 6 microsec) @ ''+'' @ tz)
              | _ \<Rightarrow> Inl ValueError)
         | _ \<Rightarrow> Inl ValueError)
      else Inr ts_str)"

text \<open>\<open>datetime.fromisoformat\<close> is the standard library's; it is the parameter
  \<open>fromiso\<close>, \<open>None\<close> where it raises \<open>ValueError\<close>.\<close>

definition parse_timestamp :: "(string \<Rightarrow> datetime option) \<Rightarrow> pyval \<Rightarrow> error + datetime" where
  "parse_timestamp fromiso v =
     (case v of
        PyNone \<Rightarrow> Inl AttributeError
      | PyStr raw \<Rightarrow>
          (case normalize_ts raw of
             Inl e \<Rightarrow> Inl e
           | Inr ts_str \<Rightarrow>
               (case fromiso ts_str of None \<Rightarrow> Inl ValueError | Some d \<Rightarrow> Inr d)))"

subsection \<open>The library as parameters\<close>

text \<open>
  What the standard library and matplotlib do is not code of the script. It is the
  environment: \<open>datetime.fromisoformat\<close> and \<open>float\<close> (\<open>None\<close> where they raise
  \<open>ValueError\<close>), the rows \<open>csv.DictReader\<close> yields for a path (\<open>None\<close> where \<open>open\<close>
  raises), and whether \<open>plt.savefig\<close> raises on a path.
\<close>

record env =
  fromisoformat :: "string \<Rightarrow> datetime option"
  py_float :: "string \<Rightarrow> rat option"
  csv_rows :: "string \<Rightarrow> row list option"
  savefig :: "string \<Rightarrow> error option"

text \<open>\<open>float(row[k])\<close>\<close>

definition read_float :: "env \<Rightarrow> row \<Rightarrow> string \<Rightarrow> error + rat" where
  "read_float E r k =
     (case get_field r k of
        Inl e \<Rightarrow> Inl e
      | Inr PyNone \<Rightarrow> Inl TypeError
      | Inr (PyStr s) \<Rightarrow> (case py_float E s of None \<Rightarrow> Inl ValueError | Some x \<Rightarrow> Inr x))"

subsection \<open>Reading and grouping (lines 20-51)\<close>

record sample =
  s_type :: string
  s_time :: datetime
  s_avg :: rat
  s_max :: rat
  s_p99 :: rat
  s_thr :: rat

text \<open>Lines 27-45: one row, up to the four numbers. \<open>Inr None\<close> is \<open>continue\<close>.\<close>

definition parse_row :: "env \<Rightarrow> row \<Rightarrow> error + sample option" where
  "parse_row E r =
     (case get_field r ''bench_type'' of
        Inl e \<Rightarrow> Inl e
      | Inr btype \<Rightarrow>
          if btype \<notin> set [PyStr ''READ'', PyStr ''WRITE''] then Inr None
          else
            (case get_field r ''group_start_time'' of
               Inl e \<Rightarrow> Inl e
             | Inr tv \<Rightarrow>
            (case parse_timestamp (fromisoformat E) tv of
               Inl e \<Rightarrow> Inl e
             | Inr start_time \<Rightarrow>
            (case read_float E r ''average_latency'' of
               Inl e \<Rightarrow> Inl e
             | Inr a \<Rightarrow>
            (case read_float E r ''max_latency'' of
               Inl e \<Rightarrow> Inl e
             | Inr m \<Rightarrow>
            (case read_float E r ''99th_latency'' of
               Inl e \<Rightarrow> Inl e
             | Inr p \<Rightarrow>
            (case read_float E r ''throughput'' of
               Inl e \<Rightarrow> Inl e
             | Inr t \<Rightarrow>
                 Inr (Some \<lparr>s_type = (case btype of PyStr b \<Rightarrow> b | PyNone \<Rightarrow> []),
                            s_time = start_time,
                            s_avg = a / 1000000, s_max = m / 1000000,
                            s_p99 = p / 1000000, s_thr = t\<rparr>))))))))"

text \<open>The per-timestamp dictionary of four lists, and the two levels of
  \<open>defaultdict\<close>. A dictionary is an association list in insertion order.\<close>

record group =
  avg_lat :: "rat list"
  max_lat :: "rat list"
  p99_lat :: "rat list"
  throughput :: "rat list"

definition empty_group :: group where
  "empty_group = \<lparr>avg_lat = [], max_lat = [], p99_lat = [], throughput = []\<rparr>"

type_synonym by_timestamp = "(datetime \<times> group) list"
type_synonym by_type = "(string \<times> by_timestamp) list"

text \<open>\<open>d[k]\<close> on a \<open>defaultdict\<close>, followed by a mutation \<open>f\<close> of the value: a missing
  key is first created with the default.\<close>

fun dd_modify :: "'k \<Rightarrow> 'v \<Rightarrow> ('v \<Rightarrow> 'v) \<Rightarrow> ('k \<times> 'v) list \<Rightarrow> ('k \<times> 'v) list" where
  "dd_modify k dflt f [] = [(k, f dflt)]"
| "dd_modify k dflt f ((k', v) # kvs) =
     (if k' = k then (k', f v) # kvs else (k', v) # dd_modify k dflt f kvs)"

definition dd_get :: "'v \<Rightarrow> ('k \<times> 'v) list \<Rightarrow> 'k \<Rightarrow> 'v" where
  "dd_get dflt d k = (case map_of d k of None \<Rightarrow> dflt | Some v \<Rightarrow> v)"

text \<open>\<open>data_by_type[btype][start_time][field].append(x)\<close>\<close>

definition append_to :: "(group \<Rightarrow> group) \<Rightarrow> string \<Rightarrow> datetime \<Rightarrow> by_type \<Rightarrow> by_type" where
  "append_to f btype start_time d =
     dd_modify btype [] (dd_modify start_time empty_group f) d"

text \<open>Lines 48-51.\<close>

definition add_sample :: "sample \<Rightarrow> by_type \<Rightarrow> by_type" where
  "add_sample s d =
     (let d1 = append_to (\<lambda>g. g\<lparr>avg_lat := avg_lat g @ [s_avg s]\<rparr>) (s_type s) (s_time s) d;
          d2 = append_to (\<lambda>g. g\<lparr>max_lat := max_lat g @ [s_max s]\<rparr>) (s_type s) (s_time s) d1;
          d3 = append_to (\<lambda>g. g\<lparr>p99_lat := p99_lat g @ [s_p99 s]\<rparr>) (s_type s) (s_time s) d2
      in append_to (\<lambda>g. g\<lparr>throughput := throughput g @ [s_thr s]\<rparr>) (s_type s) (s_time s) d3)"

fun read_rows :: "env \<Rightarrow> row list \<Rightarrow> by_type \<Rightarrow> error + by_type" where
  "read_rows E [] d = Inr d"
| "read_rows E (r # rs) d =
     (case parse_row E r of
        Inl e \<Rightarrow> Inl e
      | Inr None \<Rightarrow> read_rows E rs d
      | Inr (Some s) \<Rightarrow> read_rows E rs (add_sample s d))"

subsection \<open>Aggregation (lines 62-88)\<close>

record series =
  timestamps :: "datetime list"
  avg_lats :: "rat list"
  max_lats :: "rat list"
  p99_lats :: "rat list"
  throughputs :: "rat list"

definition empty_series :: series where
  "empty_series = \<lparr>timestamps = [], avg_lats = [], max_lats = [], p99_lats = [],
     throughputs = []\<rparr>"

text \<open>\<open>sum(xs) / len(xs)\<close>\<close>

definition py_mean :: "rat list \<Rightarrow> error + rat" where
  "py_mean xs =
     (if length xs = 0 then Inl ZeroDivisionError
      else Inr (sum_list xs / of_nat (length xs)))"

text \<open>The loop of lines 71-81 over the sorted timestamps.\<close>

fun aggregate :: "by_timestamp \<Rightarrow> datetime list \<Rightarrow> series \<Rightarrow> error + series" where
  "aggregate dbt [] acc = Inr acc"
| "aggregate dbt (ts # rest) acc =
     (let data = dd_get empty_group dbt ts in
      case py_mean (avg_lat data) of
        Inl e \<Rightarrow> Inl e
      | Inr a \<Rightarrow>
      (case py_mean (max_lat data) of
        Inl e \<Rightarrow> Inl e
      | Inr m \<Rightarrow>
      (case py_mean (p99_lat data) of
        Inl e \<Rightarrow> Inl e
      | Inr p \<Rightarrow>
          aggregate dbt rest
            \<lparr>timestamps = timestamps acc @ [ts],
             avg_lats = avg_lats acc @ [a],
             max_lats = max_lats acc @ [m],
             p99_lats = p99_lats acc @ [p],
             throughputs = throughputs acc @ [sum_list (throughput data)]\<rparr>)))"

text \<open>Line 86: \<open>[(ts - start_ts).total_seconds() for ts in timestamps]\<close>\<close>

fun rel_seconds :: "datetime \<Rightarrow> datetime list \<Rightarrow> error + rat list" where
  "rel_seconds start_ts [] = Inr []"
| "rel_seconds start_ts (ts # rest) =
     (case dt_sub_seconds ts start_ts of
        Inl e \<Rightarrow> Inl e
      | Inr x \<Rightarrow>
          (case rel_seconds start_ts rest of Inl e \<Rightarrow> Inl e | Inr xs \<Rightarrow> Inr (x # xs)))"

subsection \<open>Figures and the main program (lines 12-17, 53-137)\<close>

text \<open>A figure is what the four subplots draw: the relative seconds on the x axis and
  the four aggregated lists. The state is what the run has printed and the calls of
  \<open>savefig\<close> that returned.\<close>

record figure =
  suptitle :: string
  time_seconds :: "rat list"
  plotted :: series

record state =
  stdout :: "string list"
  saved :: "(string \<times> figure) list"

definition output_path :: "string \<Rightarrow> string \<Rightarrow> string" where
  "output_path csv_file btype = replace_str ''.dat'' (''_'' @ btype @ ''_metrics.png'') csv_file"

text \<open>The body of the loop of line 58 for one operation type: the figure and the path
  it is saved under, or \<open>None\<close> where the body ends in \<open>continue\<close>.\<close>

definition plot_one :: "env \<Rightarrow> string \<Rightarrow> by_type \<Rightarrow> string \<Rightarrow> error + (string \<times> figure) option" where
  "plot_one E csv_file d btype =
     (let data_by_timestamp = dd_get [] d btype in
      case sorted_dt (map fst data_by_timestamp) of
        Inl e \<Rightarrow> Inl e
      | Inr sorted_timestamps \<Rightarrow>
      (case aggregate data_by_timestamp sorted_timestamps empty_series of
        Inl e \<Rightarrow> Inl e
      | Inr s \<Rightarrow>
      (case timestamps s of
        [] \<Rightarrow> Inr None
      | start_ts # _ \<Rightarrow>
      (case rel_seconds start_ts (timestamps s) of
        Inl e \<Rightarrow> Inl e
      | Inr secs \<Rightarrow>
          (let fig = \<lparr>suptitle = ''ZKBench Metrics - '' @ btype @ '' Operations'',
                      time_seconds = secs, plotted = s\<rparr>;
               output = output_path csv_file btype
           in case savefig E output of
                Some e \<Rightarrow> Inl e
              | None \<Rightarrow> Inr (Some (output, fig)))))))"

fun plot_types :: "env \<Rightarrow> string \<Rightarrow> by_type \<Rightarrow> string list \<Rightarrow> state \<Rightarrow> state \<times> outcome" where
  "plot_types E csv_file d [] st = (st, Returned)"
| "plot_types E csv_file d (btype # rest) st =
     (case plot_one E csv_file d btype of
        Inl e \<Rightarrow> (st, Raised e)
      | Inr None \<Rightarrow> plot_types E csv_file d rest st
      | Inr (Some (output, fig)) \<Rightarrow>
          plot_types E csv_file d rest
            (st\<lparr>saved := saved st @ [(output, fig)],
               stdout := stdout st @ [''Saved: '' @ output]\<rparr>))"

definition main :: "env \<Rightarrow> string list \<Rightarrow> state \<times> outcome" where
  "main E argv =
     (let st0 = \<lparr>stdout = [], saved = []\<rparr> in
      if length argv < 2
      then (st0\<lparr>stdout := [''Usage: python plot_bench_metrics.py <summary.dat>'']\<rparr>, SysExit 1)
      else
        (let csv_file = argv ! 1 in
         case csv_rows E csv_file of
           None \<Rightarrow> (st0, Raised OSError)
         | Some rows \<Rightarrow>
             (case read_rows E rows [] of
                Inl e \<Rightarrow> (st0, Raised e)
              | Inr data_by_type \<Rightarrow>
                  if data_by_type = []
                  then (st0\<lparr>stdout := [''No READ/WRITE test data found'']\<rparr>, SysExit 0)
                  else plot_types E csv_file data_by_type (sort (map fst data_by_type)) st0)))"

section \<open>Plotter B: \<open>visualize_gradual_overload.py\<close>\<close>

subsection \<open>Numbers as text\<close>

text \<open>A pandas or matplotlib coordinate that may be \<open>NaN\<close> (the maximum of an empty
  column, a difference with \<open>NaT\<close>).\<close>

datatype num = NaN | Num rat

text \<open>\<open>str(n)\<close> for an integer; \<open>str_digits\<close> writes a non-negative one.\<close>

function str_digits :: "int \<Rightarrow> string" where
  "str_digits n =
     (if n < 10 then [''0123456789'' ! nat n]
      else str_digits (n div 10) @ [''0123456789'' ! nat (n mod 10)])"
  by pat_completeness auto
termination
  by (relation "measure nat") auto

declare str_digits.simps [simp del]

definition str_int :: "int \<Rightarrow> string" where
  "str_int i = (if i < 0 then ''-'' @ str_digits (- i) else str_digits i)"

text \<open>
  A Python float is a binary float64. \<open>float64_of x\<close> is the float64 nearest to \<open>x\<close>
  (ties to the even significand): the value a decimal literal, a parsed cell or a
  correctly rounded quotient has. Overflow and subnormal numbers are outside the model.
  \<open>ilog2 x\<close> is the integer part of the binary logarithm of a positive \<open>x\<close>.
\<close>

definition round_half_even :: "rat \<Rightarrow> int" where
  "round_half_even x =
     (let q = \<lfloor>x\<rfloor>; r = x - of_int q in
      if r < 1 / 2 then q else if 1 / 2 < r then q + 1 else if even q then q else q + 1)"

definition pow2 :: "int \<Rightarrow> rat" where
  "pow2 e = (if 0 \<le> e then 2 ^ nat e else 1 / 2 ^ nat (- e))"

definition ilog2 :: "rat \<Rightarrow> int" where
  "ilog2 x = (if 1 \<le> x then bitlen \<lfloor>x\<rfloor> - 1 else - bitlen (\<lceil>1 / x\<rceil> - 1))"

definition float64_of :: "rat \<Rightarrow> rat" where
  "float64_of x =
     (if x = 0 then 0
      else (let e = ilog2 \<bar>x\<bar> - 52;
                m = round_half_even (\<bar>x\<bar> / pow2 e)
            in sgn x * of_int m * pow2 e))"

text \<open>\<open>f"{x:.df}"\<close>: the exact value of the float, rounded to \<open>d\<close> decimals, ties to
  even.\<close>

definition format_f :: "nat \<Rightarrow> num \<Rightarrow> string" where
  "format_f d v =
     (case v of
        NaN \<Rightarrow> ''nan''
      | Num x \<Rightarrow>
          (let n = round_half_even (\<bar>float64_of x\<bar> * 10 ^ d);
               digits = str_digits (n mod 10 ^ d)
           in (if x < 0 then ''-'' else []) @ str_digits (n div 10 ^ d) @
              (if d = 0 then []
               else ''.'' @ replicate (d - length digits) CHR ''0'' @ digits)))"

subsection \<open>The two frames (lines 23-27)\<close>

text \<open>
  Reading the two files and converting their timestamp columns is pandas' work; its
  result is the parameter \<open>load_frames\<close> (\<open>Inl\<close> where pandas raises). A frame keeps the
  names of its columns, whether its timestamps carry a time zone, and its rows;
  timestamps are nanoseconds, workloads are integers. A field of a row whose column is
  absent is never read.
\<close>

record metric_row =
  m_timestamp :: int
  m_throughput :: rat
  m_avg_latency_ms :: rat
  m_p99_latency_ms :: rat
  m_workload :: int
  m_phase :: string

record metrics_frame =
  m_columns :: "string list"
  m_aware :: bool
  m_rows :: "metric_row list"

record phase_row =
  p_timestamp :: int
  p_phase :: string

record phases_frame =
  p_columns :: "string list"
  p_aware :: bool
  p_rows :: "phase_row list"

record benv =
  load_frames :: "string \<Rightarrow> string \<Rightarrow> error + metrics_frame \<times> phases_frame"
  savefig_b :: "string \<Rightarrow> error option"

subsection \<open>Relative time (lines 29-30)\<close>

text \<open>\<open>metrics_df['timestamp'].min()\<close>; \<open>None\<close> is \<open>NaT\<close>.\<close>

definition start_time :: "metrics_frame \<Rightarrow> int option" where
  "start_time mf =
     (if m_rows mf = [] then None else Some (Min (set (map m_timestamp (m_rows mf)))))"

definition m_time_seconds :: "metrics_frame \<Rightarrow> rat list" where
  "m_time_seconds mf =
     (case start_time mf of
        None \<Rightarrow> []
      | Some t0 \<Rightarrow> map (\<lambda>r. of_int (m_timestamp r - t0) / 1000000000) (m_rows mf))"

text \<open>\<open>column.max()\<close>\<close>

definition col_max :: "rat list \<Rightarrow> num" where
  "col_max xs = (if xs = [] then NaN else Num (Max (set xs)))"

text \<open>\<open>(phase['timestamp'] - start_time).total_seconds()\<close>\<close>

definition phase_seconds :: "metrics_frame \<Rightarrow> phases_frame \<Rightarrow> phase_row \<Rightarrow> error + num" where
  "phase_seconds mf pf p =
     (case start_time mf of
        None \<Rightarrow> Inr NaN
      | Some t0 \<Rightarrow>
          if p_aware pf = m_aware mf
          then Inr (Num (of_int (p_timestamp p - t0) / 1000000000))
          else Inl TypeError)"

subsection \<open>Drawing (lines 32-100)\<close>

text \<open>What is drawn, in order. The first component is the index into \<open>axes\<close>. The
  height of a label (taken from the axis limits) is matplotlib's.\<close>

datatype draw =
    Plot nat "rat list" "rat list" string
  | AxVLine nat num
  | AxText nat num string
  | AxVSpan nat num num string
  | Annotate string "rat \<times> rat" "rat \<times> rat"

definition phase_colors :: "(string \<times> string) list" where
  "phase_colors =
     [(''INIT'', ''#90EE90''), (''WARMUP'', ''#FFD700''), (''LOAD_INCREASE'', ''#FFA500''),
      (''FAILURE'', ''#FF6347''), (''MITIGATION'', ''#87CEEB''), (''RECOVERED'', ''#98FB98''),
      (''STABLE'', ''#32CD32''), (''PARTIAL_RECOVERY'', ''#F0E68C'')]"

definition phase_color :: "string \<Rightarrow> string" where
  "phase_color phase_name =
     (case map_of phase_colors phase_name of None \<Rightarrow> ''#FFFFFF'' | Some c \<Rightarrow> c)"

text \<open>Lines 46-67.\<close>

definition plot_series :: "metrics_frame \<Rightarrow> error + draw list" where
  "plot_series mf =
     (let ts = m_time_seconds mf; rows = m_rows mf; cols = set (m_columns mf) in
      if ''throughput'' \<notin> cols then Inl KeyError
      else if ''avg_latency_ms'' \<notin> cols then Inl KeyError
      else if ''workload'' \<notin> cols then Inl KeyError
      else Inr ([Plot 0 ts (map m_throughput rows) ''Throughput'',
                 Plot 1 ts (map m_avg_latency_ms rows) ''Avg Latency''] @
                (if ''p99_latency_ms'' \<in> cols
                 then [Plot 1 ts (map m_p99_latency_ms rows) ''P99 Latency''] else []) @
                [Plot 2 ts (map (\<lambda>r. of_int (m_workload r)) rows) ''Workload'']))"

text \<open>Lines 70-75.\<close>

fun annotate_phases ::
  "metrics_frame \<Rightarrow> phases_frame \<Rightarrow> phase_row list \<Rightarrow> draw list \<Rightarrow> error + draw list" where
  "annotate_phases mf pf [] ds = Inr ds"
| "annotate_phases mf pf (phase # rest) ds =
     (case phase_seconds mf pf phase of
        Inl e \<Rightarrow> Inl e
      | Inr phase_time \<Rightarrow>
          if ''phase'' \<notin> set (p_columns pf) then Inl KeyError
          else annotate_phases mf pf rest
                 (ds @ concat (map (\<lambda>ax. [AxVLine ax phase_time,
                                           AxText ax phase_time (p_phase phase)]) [0, 1, 2])))"

text \<open>Lines 78-86: one span for every two consecutive rows.\<close>

fun shade_phases ::
  "metrics_frame \<Rightarrow> phases_frame \<Rightarrow> phase_row list \<Rightarrow> draw list \<Rightarrow> error + draw list" where
  "shade_phases mf pf (current_phase # next_phase # rest) ds =
     (case phase_seconds mf pf current_phase of
        Inl e \<Rightarrow> Inl e
      | Inr start \<Rightarrow>
      (case phase_seconds mf pf next_phase of
        Inl e \<Rightarrow> Inl e
      | Inr end \<Rightarrow>
          if ''phase'' \<notin> set (p_columns pf) then Inl KeyError
          else shade_phases mf pf (next_phase # rest)
                 (ds @ map (\<lambda>ax. AxVSpan ax start end (phase_color (p_phase current_phase)))
                         [0, 1, 2])))"
| "shade_phases mf pf rest ds = Inr ds"

text \<open>Lines 88-95.\<close>

definition shade_last :: "metrics_frame \<Rightarrow> phases_frame \<Rightarrow> draw list \<Rightarrow> error + draw list" where
  "shade_last mf pf ds =
     (if length (p_rows pf) > 0 then
        (let last_phase = last (p_rows pf) in
         case phase_seconds mf pf last_phase of
           Inl e \<Rightarrow> Inl e
         | Inr start \<Rightarrow>
             if ''phase'' \<notin> set (p_columns pf) then Inl KeyError
             else Inr (ds @ map (\<lambda>ax. AxVSpan ax start (col_max (m_time_seconds mf))
                                        (phase_color (p_phase last_phase))) [0, 1, 2]))
      else Inr ds)"

text \<open>Lines 97-100: the rows labelled \<open>FAILURE\<close>, each with its relative time.\<close>

definition failure_point :: "metrics_frame \<Rightarrow> (metric_row \<times> rat) list" where
  "failure_point mf =
     (if ''phase'' \<in> set (m_columns mf)
      then filter (\<lambda>(r, t). m_phase r = ''FAILURE'') (zip (m_rows mf) (m_time_seconds mf))
      else [])"

definition annotate_failure :: "metrics_frame \<Rightarrow> draw list \<Rightarrow> draw list" where
  "annotate_failure mf ds =
     (case failure_point mf of
        [] \<Rightarrow> ds
      | (fp, t) # _ \<Rightarrow>
          ds @ [Annotate (''Failure'' @ [CHR 0x0A] @ str_int (m_workload fp) @ '' req'')
                  (t, m_throughput fp) (t - 10, m_throughput fp * (6 / 5))])"

definition render :: "metrics_frame \<Rightarrow> phases_frame \<Rightarrow> error + draw list" where
  "render mf pf =
     (case plot_series mf of
        Inl e \<Rightarrow> Inl e
      | Inr ds1 \<Rightarrow>
      (case annotate_phases mf pf (p_rows pf) ds1 of
        Inl e \<Rightarrow> Inl e
      | Inr ds2 \<Rightarrow>
      (case shade_phases mf pf (p_rows pf) ds2 of
        Inl e \<Rightarrow> Inl e
      | Inr ds3 \<Rightarrow>
      (case shade_last mf pf ds3 of
        Inl e \<Rightarrow> Inl e
      | Inr ds4 \<Rightarrow> Inr (annotate_failure mf ds4)))))"

subsection \<open>Saving and the summary (lines 102-114)\<close>

definition summary :: "metrics_frame \<Rightarrow> string list" where
  "summary mf =
     [[CHR 0x0A] @ ''=== Test Summary ==='',
      ''Total test duration: '' @ format_f 1 (col_max (m_time_seconds mf)) @ '' seconds'',
      ''Peak throughput: '' @ format_f 2 (col_max (map m_throughput (m_rows mf))) @ '' ops/sec''] @
     (if ''avg_latency_ms'' \<in> set (m_columns mf)
      then [''Maximum latency: '' @ format_f 2 (col_max (map m_avg_latency_ms (m_rows mf))) @ '' ms'']
      else []) @
     (case failure_point mf of
        [] \<Rightarrow> []
      | (fp, t) # _ \<Rightarrow>
          [''Failure detected at workload: '' @ str_int (m_workload fp) @ '' requests''])"

record bstate =
  printed :: "string list"
  written :: "(string \<times> draw list) list"

definition main_b :: "benv \<Rightarrow> string \<Rightarrow> bstate \<times> outcome" where
  "main_b B prefix =
     (let st0 = \<lparr>printed = [], written = []\<rparr>;
          metrics_file = prefix @ ''gradual_overload_metrics.csv'';
          phases_file = prefix @ ''phase_transitions.csv''
      in case load_frames B metrics_file phases_file of
           Inl e \<Rightarrow> (st0, Raised e)
         | Inr (metrics_df, phases_df) \<Rightarrow>
             (case render metrics_df phases_df of
                Inl e \<Rightarrow> (st0, Raised e)
              | Inr ds \<Rightarrow>
                  (let out_png = prefix @ ''visualization.png'' in
                   case savefig_b B out_png of
                     Some e \<Rightarrow> (st0, Raised e)
                   | None \<Rightarrow>
                       (\<lparr>printed = (''Visualization written to '' @ out_png) # summary metrics_df,
                         written = [(out_png, ds)]\<rparr>, Returned))))"

section \<open>Notions the properties are stated with\<close>

text \<open>The samples a file contributes: its rows, in order, that \<open>parse_row\<close> accepts.\<close>

definition parsed :: "env \<Rightarrow> row list \<Rightarrow> sample list" where
  "parsed E rows =
     concat (map (\<lambda>r. case parse_row E r of Inr (Some s) \<Rightarrow> [s] | _ \<Rightarrow> []) rows)"

text \<open>The samples of one operation type at one timestamp.\<close>

definition matching :: "string \<Rightarrow> datetime \<Rightarrow> sample list \<Rightarrow> sample list" where
  "matching b ts ss = filter (\<lambda>s. s_type s = b \<and> s_time s = ts) ss"

definition mean :: "rat list \<Rightarrow> rat" where
  "mean xs = sum_list xs / of_nat (length xs)"

definition group_of :: "sample list \<Rightarrow> group" where
  "group_of ss = \<lparr>avg_lat = map s_avg ss, max_lat = map s_max ss,
     p99_lat = map s_p99 ss, throughput = map s_thr ss\<rparr>"

text \<open>The dictionary \<open>d\<close> holds exactly the samples \<open>ss\<close>, grouped.\<close>

definition grouped :: "by_type \<Rightarrow> sample list \<Rightarrow> bool" where
  "grouped d ss \<longleftrightarrow>
     distinct (map fst d) \<and> fst ` set d = s_type ` set ss \<and>
     (\<forall>b. distinct (map fst (dd_get [] d b)) \<and>
          fst ` set (dd_get [] d b) = s_time ` {s \<in> set ss. s_type s = b} \<and>
          (\<forall>ts. dd_get empty_group (dd_get [] d b) ts = group_of (matching b ts ss)))"

text \<open>The figures the loop of line 58 saves for the operation types \<open>bs\<close>, when no
  body raises.\<close>

definition figures :: "env \<Rightarrow> string \<Rightarrow> by_type \<Rightarrow> string list \<Rightarrow> (string \<times> figure) list" where
  "figures E csv d bs =
     concat (map (\<lambda>b. case plot_one E csv d b of Inr (Some x) \<Rightarrow> [x] | _ \<Rightarrow> []) bs)"

text \<open>\<open>old in s\<close>\<close>

fun contains_str :: "string \<Rightarrow> string \<Rightarrow> bool" where
  "contains_str old [] = (old = [])"
| "contains_str old (c # cs) = (take (length old) (c # cs) = old \<or> contains_str old cs)"

text \<open>The operation types a row can be accepted with.\<close>

definition accepted :: "row \<Rightarrow> bool" where
  "accepted r \<longleftrightarrow> r ''bench_type'' \<in> {Some (PyStr ''READ''), Some (PyStr ''WRITE'')}"

text \<open>A string of decimal digits.\<close>

definition is_digit :: "char \<Rightarrow> bool" where
  "is_digit c \<longleftrightarrow> c \<in> set ''0123456789''"

definition all_digits :: "string \<Rightarrow> bool" where
  "all_digits s = list_all is_digit s"

text \<open>The number a string of decimal digits denotes.\<close>

definition digits_value :: "string \<Rightarrow> int" where
  "digits_value s = foldl (\<lambda>acc c. 10 * acc + (of_char c - 48)) 0 s"

text \<open>A vertical marker, its label, or a shaded interval.\<close>

fun is_phase_mark :: "draw \<Rightarrow> bool" where
  "is_phase_mark (AxVLine ax x) = True"
| "is_phase_mark (AxText ax x name) = True"
| "is_phase_mark (AxVSpan ax x y color) = True"
| "is_phase_mark (Plot ax xs ys label) = False"
| "is_phase_mark (Annotate label xy xytext) = False"

section \<open>Example inputs\<close>

text \<open>A row of a file with the six columns the script reads.\<close>

definition csv_row :: "string \<Rightarrow> string \<Rightarrow> string \<Rightarrow> string \<Rightarrow> string \<Rightarrow> string \<Rightarrow> row" where
  "csv_row bt ts a m p t =
     map_of [(''bench_type'', PyStr bt), (''group_start_time'', PyStr ts),
             (''average_latency'', PyStr a), (''max_latency'', PyStr m),
             (''99th_latency'', PyStr p), (''throughput'', PyStr t)]"

text \<open>The two client rows of the specification's example, and a longer file with an
  excluded row, a second timestamp and a second operation type.\<close>

definition example_rows :: "row list" where
  "example_rows =
     [csv_row ''READ'' ''2025-01-01T00:00:00.123Z'' ''10e6'' ''20e6'' ''15e6'' ''100'',
      csv_row ''READ'' ''2025-01-01T00:00:00.123Z'' ''20e6'' ''40e6'' ''25e6'' ''50'']"

definition mixed_rows :: "row list" where
  "mixed_rows =
     [csv_row ''READ'' ''2025-01-01T00:00:02.5Z'' ''40e6'' ''40e6'' ''40e6'' ''100'',
      csv_row ''CREATE'' ''yesterday'' ''fast'' ''fast'' ''fast'' ''many'',
      csv_row ''WRITE'' ''2025-01-01T00:00:00.123Z'' ''25e6'' ''40e6'' ''25e6'' ''50''] @
     example_rows"

text \<open>An environment in which the path holds the rows, the library reads the strings
  of the examples as Python does, and every figure can be saved.\<close>

definition example_env :: "string \<Rightarrow> row list \<Rightarrow> env" where
  "example_env path rows =
     \<lparr>fromisoformat =
        map_of [(''2025-01-01T00:00:00.123000+00:00'', Aware 1735689600123000),
                (''2025-01-01T00:00:02.500000+00:00'', Aware 1735689602500000)],
      py_float =
        map_of [(''10e6'', 10000000), (''15e6'', 15000000), (''20e6'', 20000000),
                (''25e6'', 25000000), (''40e6'', 40000000), (''50'', 50), (''100'', 100)],
      csv_rows = map_of [(path, rows)],
      savefig = (\<lambda>p. None)\<rparr>"

text \<open>A date-time constructor that accepts \<open>2025-01-01T00:00:00.\<close>, six further
  characters read as microseconds, and \<open>+05:30\<close>, and nothing else.\<close>

definition example_fromiso :: "string \<Rightarrow> datetime option" where
  "example_fromiso s =
     (if take 20 s = ''2025-01-01T00:00:00.'' \<and> drop 26 s = ''+05:30''
      then Some (Aware (1735669800000000 + digits_value (take 6 (drop 20 s))))
      else None)"

text \<open>Metrics at \<open>T0\<close> and \<open>T0 + 60 s\<close>, and the two phase transitions of the
  specification's example.\<close>

definition example_metrics :: metrics_frame where
  "example_metrics =
     \<lparr>m_columns = [''timestamp'', ''throughput'', ''avg_latency_ms'', ''workload'', ''phase''],
      m_aware = False,
      m_rows =
        [\<lparr>m_timestamp = 1735689600000000000, m_throughput = 100, m_avg_latency_ms = 5 / 2,
          m_p99_latency_ms = 0, m_workload = 10, m_phase = ''WARMUP''\<rparr>,
         \<lparr>m_timestamp = 1735689660000000000, m_throughput = 1201 / 8, m_avg_latency_ms = 7 / 2,
          m_p99_latency_ms = 0, m_workload = 120, m_phase = ''FAILURE''\<rparr>]\<rparr>"

text \<open>The same metrics with the second row 0.35 s after the first.\<close>

definition short_metrics :: metrics_frame where
  "short_metrics =
     example_metrics\<lparr>m_rows :=
       [hd (m_rows example_metrics),
        (last (m_rows example_metrics))\<lparr>m_timestamp := 1735689600350000000\<rparr>]\<rparr>"

definition example_phases :: phases_frame where
  "example_phases =
     \<lparr>p_columns = [''timestamp'', ''phase''], p_aware = False,
      p_rows = [\<lparr>p_timestamp = 1735689600000000000, p_phase = ''WARMUP''\<rparr>,
                \<lparr>p_timestamp = 1735689630000000000, p_phase = ''FAILURE''\<rparr>]\<rparr>"

definition example_benv :: "metrics_frame \<Rightarrow> phases_frame \<Rightarrow> benv" where
  "example_benv mf pf = \<lparr>load_frames = (\<lambda>m p. Inr (mf, pf)), savefig_b = (\<lambda>p. None)\<rparr>"

section \<open>Strings: replacing and splitting\<close>

lemma replace_ne_append_notin:
  "c \<notin> set s \<Longrightarrow> replace_ne [c] new (s @ t) = s @ replace_ne [c] new t"
  by (induction s) auto

lemma replace_ne_notin: "c \<notin> set s \<Longrightarrow> replace_ne [c] new s = s"
  by (induction s) auto

lemma split_on_notin: "c \<notin> set s \<Longrightarrow> split_on c s = [s]"
  by (induction s) auto

lemma split_on_append: "c \<notin> set a \<Longrightarrow> split_on c (a @ c # b) = a # split_on c b"
  by (induction a) auto

lemma ljust_take6: "ljust 6 c (take 6 s) = take 6 s @ replicate (6 - length s) c"
  by (simp add: ljust_def min_def)

lemma normalize_plus:
  assumes "\<forall>c \<in> set (base @ fr @ tz). c \<noteq> CHR ''.'' \<and> c \<noteq> CHR ''+'' \<and> c \<noteq> CHR ''Z''"
  shows "normalize_ts (base @ ''.'' @ fr @ ''+'' @ tz) =
          Inr (base @ ''.'' @ take 6 fr @ replicate (6 - length fr) CHR ''0'' @ ''+'' @ tz)"
proof -
  have Z: "CHR ''Z'' \<notin> set (base @ ''.'' @ fr @ ''+'' @ tz)" using assms by auto
  have b: "CHR ''.'' \<notin> set base" and f: "CHR ''+'' \<notin> set fr"
    and r: "CHR ''.'' \<notin> set (fr @ ''+'' @ tz)" and t: "CHR ''+'' \<notin> set tz"
    using assms by auto
  have 1: "replace_str ''Z'' ''+00:00'' (base @ ''.'' @ fr @ ''+'' @ tz) =
             base @ ''.'' @ fr @ ''+'' @ tz"
    unfolding replace_str_def using replace_ne_notin[OF Z] by simp
  have 2: "split_on CHR ''.'' (base @ ''.'' @ fr @ ''+'' @ tz) = [base, fr @ ''+'' @ tz]"
    using split_on_append[OF b, of "fr @ ''+'' @ tz"] split_on_notin[OF r] by simp
  have 3: "split_on CHR ''+'' (fr @ ''+'' @ tz) = [fr, tz]"
    using split_on_append[OF f, of tz] split_on_notin[OF t] by simp
  show ?thesis
    unfolding normalize_ts_def 1 Let_def using 2 3 by (simp add: ljust_take6)
qed

lemma normalize_Z:
  assumes "\<forall>c \<in> set (base @ fr). c \<noteq> CHR ''.'' \<and> c \<noteq> CHR ''+'' \<and> c \<noteq> CHR ''Z''"
  shows "normalize_ts (base @ ''.'' @ fr @ ''Z'') =
          Inr (base @ ''.'' @ take 6 fr @ replicate (6 - length fr) CHR ''0'' @ ''+00:00'')"
proof -
  have Z: "CHR ''Z'' \<notin> set (base @ ''.'' @ fr)" using assms by auto
  have 1: "replace_str ''Z'' ''+00:00'' (base @ ''.'' @ fr @ ''Z'') =
             base @ ''.'' @ fr @ ''+'' @ ''00:00''"
    unfolding replace_str_def
    using replace_ne_append_notin[OF Z, of "''+00:00''" "''Z''"] by simp
  have "normalize_ts (base @ ''.'' @ fr @ ''+'' @ ''00:00'') =
          Inr (base @ ''.'' @ take 6 fr @ replicate (6 - length fr) CHR ''0'' @ ''+'' @ ''00:00'')"
    by (rule normalize_plus) (use assms in auto)
  moreover have "normalize_ts (base @ ''.'' @ fr @ ''Z'') =
                   normalize_ts (base @ ''.'' @ fr @ ''+'' @ ''00:00'')"
  proof -
    have "replace_str ''Z'' ''+00:00'' (base @ ''.'' @ fr @ ''+'' @ ''00:00'') =
            base @ ''.'' @ fr @ ''+'' @ ''00:00''"
      unfolding replace_str_def
      using replace_ne_notin[of "CHR ''Z''" "base @ ''.'' @ fr @ ''+'' @ ''00:00''"] assms
      by auto
    then show ?thesis unfolding normalize_ts_def 1 by simp
  qed
  ultimately show ?thesis by simp
qed

section \<open>Dictionaries\<close>

lemma map_of_dd_modify:
  "map_of (dd_modify k dflt f d) = (map_of d)(k \<mapsto> f (dd_get dflt d k))"
  by (induction d) (auto simp: dd_get_def)

lemma dd_get_dd_modify:
  "dd_get dflt' (dd_modify k dflt f d) k' =
     (if k' = k then f (dd_get dflt d k) else dd_get dflt' d k')"
  by (simp add: dd_get_def map_of_dd_modify)

lemma map_fst_dd_modify:
  "map fst (dd_modify k dflt f d) = (if k \<in> fst ` set d then map fst d else map fst d @ [k])"
  by (induction d) force+

lemma keys_dd_modify: "fst ` set (dd_modify k dflt f d) = insert k (fst ` set d)"
  using arg_cong[OF map_fst_dd_modify, of set k dflt f d] by auto

lemma distinct_dd_modify: "distinct (map fst d) \<Longrightarrow> distinct (map fst (dd_modify k dflt f d))"
  by (simp add: map_fst_dd_modify)

lemma dd_get_Nil [simp]: "dd_get dflt [] k = dflt"
  by (simp add: dd_get_def)

lemma dd_get_member:
  "distinct (map fst d) \<Longrightarrow> (k, v) \<in> set d \<Longrightarrow> dd_get dflt d k = v"
  by (simp add: dd_get_def)

lemma keys_append_to: "fst ` set (append_to f b ts d) = insert b (fst ` set d)"
  by (simp add: append_to_def keys_dd_modify)

lemma distinct_append_to: "distinct (map fst d) \<Longrightarrow> distinct (map fst (append_to f b ts d))"
  by (simp add: append_to_def distinct_dd_modify)

lemma inner_append_to:
  "dd_get [] (append_to f b ts d) b' =
     (if b' = b then dd_modify ts empty_group f (dd_get [] d b) else dd_get [] d b')"
  by (simp add: append_to_def dd_get_dd_modify)

lemma keys_add_sample: "fst ` set (add_sample s d) = insert (s_type s) (fst ` set d)"
  by (simp add: add_sample_def Let_def keys_append_to)

lemma distinct_add_sample: "distinct (map fst d) \<Longrightarrow> distinct (map fst (add_sample s d))"
  by (simp add: add_sample_def Let_def distinct_append_to)

lemma inner_keys_add_sample:
  "fst ` set (dd_get [] (add_sample s d) b) =
     (if b = s_type s then insert (s_time s) (fst ` set (dd_get [] d b))
      else fst ` set (dd_get [] d b))"
  by (simp add: add_sample_def Let_def inner_append_to keys_dd_modify)

lemma inner_distinct_add_sample:
  "distinct (map fst (dd_get [] d b)) \<Longrightarrow> distinct (map fst (dd_get [] (add_sample s d) b))"
  by (auto simp add: add_sample_def Let_def inner_append_to intro!: distinct_dd_modify)

lemma group_add_sample:
  "dd_get empty_group (dd_get [] (add_sample s d) b) ts =
     (if b = s_type s \<and> ts = s_time s
      then (let g = dd_get empty_group (dd_get [] d b) ts in
            \<lparr>avg_lat = avg_lat g @ [s_avg s], max_lat = max_lat g @ [s_max s],
             p99_lat = p99_lat g @ [s_p99 s], throughput = throughput g @ [s_thr s]\<rparr>)
      else dd_get empty_group (dd_get [] d b) ts)"
  by (simp add: add_sample_def Let_def inner_append_to dd_get_dd_modify)

section \<open>What the reading loop builds\<close>

lemma grouped_Nil: "grouped [] []"
  by (simp add: grouped_def group_of_def matching_def empty_group_def)

lemma groupedD:
  assumes "grouped d ss"
  shows "distinct (map fst d)" and "fst ` set d = s_type ` set ss"
    and "distinct (map fst (dd_get [] d b))"
    and "fst ` set (dd_get [] d b) = s_time ` {s \<in> set ss. s_type s = b}"
    and "dd_get empty_group (dd_get [] d b) ts = group_of (matching b ts ss)"
  using assms by (simp_all add: grouped_def)

lemma matching_snoc:
  "matching b ts (ss @ [s]) =
     matching b ts ss @ (if s_type s = b \<and> s_time s = ts then [s] else [])"
  by (simp add: matching_def)

lemma group_of_snoc:
  "group_of (ss @ [s]) =
     \<lparr>avg_lat = avg_lat (group_of ss) @ [s_avg s], max_lat = max_lat (group_of ss) @ [s_max s],
      p99_lat = p99_lat (group_of ss) @ [s_p99 s],
      throughput = throughput (group_of ss) @ [s_thr s]\<rparr>"
  by (simp add: group_of_def)

lemma grouped_add_sample:
  assumes "grouped d ss"
  shows "grouped (add_sample s d) (ss @ [s])"
proof -
  note G = groupedD[OF assms]
  have 1: "distinct (map fst (add_sample s d))"
    using G(1) by (rule distinct_add_sample)
  have 2: "fst ` set (add_sample s d) = s_type ` set (ss @ [s])"
    unfolding keys_add_sample G(2) by simp
  have 3: "distinct (map fst (dd_get [] (add_sample s d) b))" for b
    using G(3) by (rule inner_distinct_add_sample)
  have 4: "fst ` set (dd_get [] (add_sample s d) b) =
             s_time ` {x \<in> set (ss @ [s]). s_type x = b}" for b
  proof (cases "b = s_type s")
    case True
    have "{x \<in> set (ss @ [s]). s_type x = b} = insert s {x \<in> set ss. s_type x = b}"
      using True by auto
    then show ?thesis unfolding inner_keys_add_sample G(4) using True by simp
  next
    case False
    have "{x \<in> set (ss @ [s]). s_type x = b} = {x \<in> set ss. s_type x = b}"
      using False by auto
    then show ?thesis unfolding inner_keys_add_sample G(4) using False by simp
  qed
  have 5: "dd_get empty_group (dd_get [] (add_sample s d) b) ts =
             group_of (matching b ts (ss @ [s]))" for b ts
    unfolding group_add_sample G(5) matching_snoc
    by (simp add: group_of_snoc Let_def)
  show ?thesis
    unfolding grouped_def by (intro conjI allI 1 2 3 4 5)
qed

lemma parsed_Cons:
  "parsed E (r # rows) =
     (case parse_row E r of Inr (Some s) \<Rightarrow> [s] | _ \<Rightarrow> []) @ parsed E rows"
  by (simp add: parsed_def)

lemma read_rows_grouped:
  "read_rows E rows d = Inr d' \<Longrightarrow> grouped d ss \<Longrightarrow> grouped d' (ss @ parsed E rows)"
proof (induction rows arbitrary: d ss)
  case Nil
  then show ?case by (simp add: parsed_def)
next
  case (Cons r rows)
  show ?case
  proof (cases "parse_row E r")
    case (Inl e)
    with Cons.prems(1) show ?thesis by simp
  next
    case (Inr opt)
    show ?thesis
    proof (cases opt)
      case None
      with Inr Cons.prems(1) have "read_rows E rows d = Inr d'" by simp
      from Cons.IH[OF this Cons.prems(2)]
      show ?thesis unfolding parsed_Cons Inr None by simp
    next
      case (Some s)
      with Inr Cons.prems(1) have "read_rows E rows (add_sample s d) = Inr d'" by simp
      from Cons.IH[OF this grouped_add_sample[OF Cons.prems(2)]]
      show ?thesis unfolding parsed_Cons Inr Some by simp
    qed
  qed
qed

lemma read_rows_parsed:
  assumes "read_rows E rows [] = Inr d"
  shows "grouped d (parsed E rows)"
  using read_rows_grouped[OF assms grouped_Nil] by simp

section \<open>Aggregation and the plotting loop\<close>

lemma aggregate_explicit:
  assumes "\<forall>ts \<in> set tss. avg_lat (dd_get empty_group dbt ts) \<noteq> [] \<and>
             max_lat (dd_get empty_group dbt ts) \<noteq> [] \<and> p99_lat (dd_get empty_group dbt ts) \<noteq> []"
  shows "aggregate dbt tss acc =
     Inr \<lparr>timestamps = timestamps acc @ tss,
          avg_lats = avg_lats acc @ map (\<lambda>ts. mean (avg_lat (dd_get empty_group dbt ts))) tss,
          max_lats = max_lats acc @ map (\<lambda>ts. mean (max_lat (dd_get empty_group dbt ts))) tss,
          p99_lats = p99_lats acc @ map (\<lambda>ts. mean (p99_lat (dd_get empty_group dbt ts))) tss,
          throughputs = throughputs acc @ map (\<lambda>ts. sum_list (throughput (dd_get empty_group dbt ts))) tss\<rparr>"
  using assms
proof (induction tss arbitrary: acc)
  case Nil
  show ?case by (cases acc) simp
next
  case (Cons ts tss)
  then show ?case by (simp add: py_mean_def mean_def Let_def)
qed

lemma sorted_dt_Inr:
  assumes "sorted_dt xs = Inr tss"
  shows "tss = sort_key dt_micros xs"
    and "\<not> (\<exists>a \<in> set xs. \<exists>b \<in> set xs. is_aware a \<noteq> is_aware b)"
proof -
  show nm: "\<not> (\<exists>a \<in> set xs. \<exists>b \<in> set xs. is_aware a \<noteq> is_aware b)"
  proof
    assume "\<exists>a \<in> set xs. \<exists>b \<in> set xs. is_aware a \<noteq> is_aware b"
    then have "sorted_dt xs = Inl TypeError" unfolding sorted_dt_def by (rule if_P)
    with assms show False by simp
  qed
  have "sorted_dt xs = Inr (sort_key dt_micros xs)"
    unfolding sorted_dt_def using nm by (rule if_not_P)
  with assms show "tss = sort_key dt_micros xs" by simp
qed

lemma rel_seconds_Inr:
  "rel_seconds start tss = Inr secs \<Longrightarrow>
     secs = map (\<lambda>t. of_int (dt_micros t - dt_micros start) / 1000000) tss"
  by (induction tss arbitrary: secs) (auto simp: dt_sub_seconds_def split: sum.splits if_splits)

lemma plot_types_saved:
  "plot_types E csv d bs st = (st', out) \<Longrightarrow> x \<in> set (saved st') \<Longrightarrow>
     x \<in> set (saved st) \<or> (\<exists>b \<in> set bs. plot_one E csv d b = Inr (Some x))"
proof (induction bs arbitrary: st)
  case Nil
  then show ?case by simp
next
  case (Cons b bs)
  show ?case
  proof (cases "plot_one E csv d b")
    case (Inl e)
    with Cons.prems show ?thesis by simp
  next
    case (Inr opt)
    show ?thesis
    proof (cases opt)
      case None
      with Inr Cons.prems(1) have "plot_types E csv d bs st = (st', out)" by simp
      from Cons.IH[OF this Cons.prems(2)] show ?thesis by auto
    next
      case (Some pf)
      obtain p f where pf: "pf = (p, f)" by (cases pf)
      let ?st = "st\<lparr>saved := saved st @ [(p, f)], stdout := stdout st @ [''Saved: '' @ p]\<rparr>"
      from Inr Some pf Cons.prems(1) have "plot_types E csv d bs ?st = (st', out)" by simp
      from Cons.IH[OF this Cons.prems(2)] show ?thesis using Inr Some pf by auto
    qed
  qed
qed

lemma plot_types_Returned:
  "plot_types E csv d bs st = (st', Returned) \<Longrightarrow>
     saved st' = saved st @ figures E csv d bs \<and>
     stdout st' = stdout st @ map (\<lambda>(p, f). ''Saved: '' @ p) (figures E csv d bs) \<and>
     (\<forall>b \<in> set bs. \<exists>r. plot_one E csv d b = Inr r)"
proof (induction bs arbitrary: st)
  case Nil
  then show ?case by (simp add: figures_def)
next
  case (Cons b bs)
  show ?case
  proof (cases "plot_one E csv d b")
    case (Inl e)
    with Cons.prems show ?thesis by simp
  next
    case (Inr opt)
    show ?thesis
    proof (cases opt)
      case None
      with Inr Cons.prems(1) have "plot_types E csv d bs st = (st', Returned)" by simp
      from Cons.IH[OF this] show ?thesis using Inr None by (simp add: figures_def)
    next
      case (Some pf)
      obtain p f where pf: "pf = (p, f)" by (cases pf)
      let ?st = "st\<lparr>saved := saved st @ [(p, f)], stdout := stdout st @ [''Saved: '' @ p]\<rparr>"
      from Inr Some pf Cons.prems(1) have "plot_types E csv d bs ?st = (st', Returned)" by simp
      from Cons.IH[OF this] show ?thesis using Inr Some pf by (simp add: figures_def)
    qed
  qed
qed

lemma aggregate_timestamps:
  "aggregate dbt tss acc = Inr s \<Longrightarrow> timestamps s = timestamps acc @ tss"
  by (induction tss arbitrary: acc) (auto simp: Let_def split: sum.splits)

lemma plot_oneD:
  assumes "plot_one E csv d b = Inr (Some (p, fig))"
  shows "\<exists>tss s. sorted_dt (map fst (dd_get [] d b)) = Inr tss \<and>
           aggregate (dd_get [] d b) tss empty_series = Inr s \<and> tss \<noteq> [] \<and>
           rel_seconds (hd tss) tss = Inr (time_seconds fig) \<and> plotted fig = s \<and>
           suptitle fig = ''ZKBench Metrics - '' @ b @ '' Operations'' \<and>
           p = output_path csv b \<and> savefig E p = None"
proof (cases "sorted_dt (map fst (dd_get [] d b))")
  case (Inl e)
  with assms show ?thesis by (simp add: plot_one_def)
next
  case tss: (Inr tss)
  show ?thesis
  proof (cases "aggregate (dd_get [] d b) tss empty_series")
    case (Inl e)
    with assms tss show ?thesis by (simp add: plot_one_def)
  next
    case s: (Inr s)
    have ts: "timestamps s = tss"
      using aggregate_timestamps[OF s] by (simp add: empty_series_def)
    show ?thesis
    proof (cases tss)
      case Nil
      with assms tss s ts show ?thesis by (simp add: plot_one_def)
    next
      case (Cons start rest)
      show ?thesis
      proof (cases "rel_seconds start tss")
        case (Inl e)
        with assms tss s ts Cons show ?thesis by (simp add: plot_one_def)
      next
        case (Inr secs)
        with assms tss s ts Cons show ?thesis
          by (auto simp add: plot_one_def Let_def split: option.splits)
      qed
    qed
  qed
qed

lemma rel_seconds_sorted:
  assumes "sorted (map dt_micros tss)"
  shows "sorted (map (\<lambda>t. (of_int (dt_micros t - c) :: rat) / 1000000) tss)"
proof -
  have "sorted_wrt (\<lambda>x y. dt_micros x \<le> dt_micros y) tss"
    using assms by (simp add: sorted_map)
  then have "sorted_wrt (\<lambda>x y. (of_int (dt_micros x - c) :: rat) / 1000000
                               \<le> of_int (dt_micros y - c) / 1000000) tss"
    by (rule sorted_wrt_mono_rel[rotated]) (simp add: divide_right_mono)
  then show ?thesis by (simp add: sorted_map)
qed

lemma plot_one_time_seconds:
  assumes "plot_one E csv d b = Inr (Some (p, fig))"
  shows "time_seconds fig \<noteq> [] \<and> hd (time_seconds fig) = 0 \<and> sorted (time_seconds fig)"
proof -
  from plot_oneD[OF assms] obtain tss s where
    tss: "sorted_dt (map fst (dd_get [] d b)) = Inr tss" and ne: "tss \<noteq> []"
    and rel: "rel_seconds (hd tss) tss = Inr (time_seconds fig)"
    by blast
  have secs: "time_seconds fig =
                map (\<lambda>t. of_int (dt_micros t - dt_micros (hd tss)) / 1000000) tss"
    by (rule rel_seconds_Inr[OF rel])
  have "sorted (map dt_micros tss)"
    unfolding sorted_dt_Inr(1)[OF tss] by simp
  then have "sorted (time_seconds fig)"
    unfolding secs by (rule rel_seconds_sorted)
  moreover have "time_seconds fig \<noteq> []" using ne secs by simp
  moreover have "hd (time_seconds fig) = 0" using ne secs by (simp add: hd_map)
  ultimately show ?thesis by simp
qed

lemma main_saved:
  assumes "main E argv = (st, out)" and "x \<in> set (saved st)"
  shows "\<exists>rows d. \<not> length argv < 2 \<and> csv_rows E (argv ! 1) = Some rows \<and>
           read_rows E rows [] = Inr d \<and>
           (\<exists>b \<in> fst ` set d. plot_one E (argv ! 1) d b = Inr (Some x))"
proof (cases "length argv < 2")
  case True
  with assms show ?thesis by (auto simp: main_def)
next
  case len: False
  show ?thesis
  proof (cases "csv_rows E (argv ! 1)")
    case None
    with assms len show ?thesis by (auto simp: main_def)
  next
    case rows: (Some rows)
    show ?thesis
    proof (cases "read_rows E rows []")
      case (Inl e)
      with assms len rows show ?thesis by (auto simp: main_def)
    next
      case d: (Inr d)
      show ?thesis
      proof (cases "d = []")
        case True
        with assms len rows d show ?thesis by (auto simp: main_def)
      next
        case False
        with assms(1) len rows d
        have "plot_types E (argv ! 1) d (sort (map fst d)) \<lparr>stdout = [], saved = []\<rparr> = (st, out)"
          by (simp add: main_def)
        from plot_types_saved[OF this assms(2)] len rows d show ?thesis by auto
      qed
    qed
  qed
qed

section \<open>Runs on the example inputs\<close>

lemma example_run:
  "main (example_env ''summary.dat'' example_rows) [''plot_bench_metrics.py'', ''summary.dat''] =
     (\<lparr>stdout = [''Saved: summary_READ_metrics.png''],
       saved =
         [(''summary_READ_metrics.png'',
           \<lparr>suptitle = ''ZKBench Metrics - READ Operations'',
            time_seconds = [0],
            plotted = \<lparr>timestamps = [Aware 1735689600123000], avg_lats = [15],
                       max_lats = [30], p99_lats = [20], throughputs = [150]\<rparr>\<rparr>)]\<rparr>,
      Returned)"
  by code_simp

lemma mixed_run:
  "main (example_env ''summary.dat'' mixed_rows) [''plot_bench_metrics.py'', ''summary.dat''] =
     (\<lparr>stdout = [''Saved: summary_READ_metrics.png'', ''Saved: summary_WRITE_metrics.png''],
       saved =
         [(''summary_READ_metrics.png'',
           \<lparr>suptitle = ''ZKBench Metrics - READ Operations'',
            time_seconds = [0, 2377 / 1000],
            plotted = \<lparr>timestamps = [Aware 1735689600123000, Aware 1735689602500000],
                       avg_lats = [15, 40], max_lats = [30, 40], p99_lats = [20, 40],
                       throughputs = [150, 100]\<rparr>\<rparr>),
          (''summary_WRITE_metrics.png'',
           \<lparr>suptitle = ''ZKBench Metrics - WRITE Operations'',
            time_seconds = [0],
            plotted = \<lparr>timestamps = [Aware 1735689600123000], avg_lats = [25],
                       max_lats = [40], p99_lats = [25], throughputs = [50]\<rparr>\<rparr>)]\<rparr>,
      Returned)"
  by code_simp

section \<open>Rows and samples\<close>

lemma parse_row_not_accepted:
  "r ''bench_type'' \<noteq> None \<Longrightarrow> \<not> accepted r \<Longrightarrow> parse_row E r = Inr None"
  by (auto simp: parse_row_def get_field_def accepted_def)

lemma parse_row_Some:
  assumes "parse_row E r = Inr (Some s)"
  shows "r ''bench_type'' = Some (PyStr (s_type s))"
    and "s_type s = ''READ'' \<or> s_type s = ''WRITE''"
    and "read_float E r ''average_latency'' = Inr (1000000 * s_avg s)"
    and "read_float E r ''max_latency'' = Inr (1000000 * s_max s)"
    and "read_float E r ''99th_latency'' = Inr (1000000 * s_p99 s)"
    and "read_float E r ''throughput'' = Inr (s_thr s)"
  using assms
  by (auto simp: parse_row_def get_field_def split: option.splits sum.splits if_splits)

lemma parse_row_accepted:
  assumes "parse_row E r = Inr opt" and "r ''bench_type'' = Some (PyStr b)"
    and "b = ''READ'' \<or> b = ''WRITE''"
  shows "\<exists>s. opt = Some s \<and> s_type s = b"
  using assms
  by (auto simp: parse_row_def get_field_def split: option.splits sum.splits if_splits)

lemma read_rows_all_parse:
  "read_rows E rows d = Inr d' \<Longrightarrow> r \<in> set rows \<Longrightarrow> \<exists>opt. parse_row E r = Inr opt"
  by (induction rows arbitrary: d) (auto split: sum.splits option.splits)

lemma parsed_member:
  "r \<in> set rows \<Longrightarrow> parse_row E r = Inr (Some s) \<Longrightarrow> s \<in> set (parsed E rows)"
  by (force simp: parsed_def)

lemma parsed_origin:
  "s \<in> set (parsed E rows) \<Longrightarrow> \<exists>r \<in> set rows. parse_row E r = Inr (Some s)"
  by (auto simp: parsed_def split: sum.splits option.splits)

lemma read_rows_rejected:
  "\<forall>r \<in> set rows. r ''bench_type'' \<noteq> None \<and> \<not> accepted r \<Longrightarrow> read_rows E rows d = Inr d"
  by (induction rows) (simp_all add: parse_row_not_accepted)

section \<open>Groups\<close>

lemma matching_nonempty_iff:
  "matching b ts ss \<noteq> [] \<longleftrightarrow> ts \<in> s_time ` {s \<in> set ss. s_type s = b}"
  by (auto simp: matching_def filter_empty_conv)

lemma grouped_group_at:
  assumes "grouped d ss" and "ts \<in> fst ` set (dd_get [] d b)"
  shows "dd_get empty_group (dd_get [] d b) ts = group_of (matching b ts ss)"
    and "matching b ts ss \<noteq> []"
  using groupedD(4,5)[OF assms(1)] assms(2) by (simp_all add: matching_nonempty_iff)

lemma set_sorted_dt: "sorted_dt xs = Inr tss \<Longrightarrow> set tss = set xs"
  using sorted_dt_Inr(1) by fastforce

lemma distinct_sorted_dt: "sorted_dt xs = Inr tss \<Longrightarrow> distinct tss = distinct xs"
  using sorted_dt_Inr(1) by fastforce

lemma aggregate_grouped:
  assumes "grouped d ss" and "set tss \<subseteq> fst ` set (dd_get [] d b)"
  shows "aggregate (dd_get [] d b) tss empty_series =
     Inr \<lparr>timestamps = tss,
          avg_lats = map (\<lambda>ts. mean (map s_avg (matching b ts ss))) tss,
          max_lats = map (\<lambda>ts. mean (map s_max (matching b ts ss))) tss,
          p99_lats = map (\<lambda>ts. mean (map s_p99 (matching b ts ss))) tss,
          throughputs = map (\<lambda>ts. sum_list (map s_thr (matching b ts ss))) tss\<rparr>"
proof -
  have g: "dd_get empty_group (dd_get [] d b) ts = group_of (matching b ts ss)" for ts
    by (rule groupedD(5)[OF assms(1)])
  have ne: "\<forall>ts \<in> set tss. avg_lat (dd_get empty_group (dd_get [] d b) ts) \<noteq> [] \<and>
             max_lat (dd_get empty_group (dd_get [] d b) ts) \<noteq> [] \<and>
             p99_lat (dd_get empty_group (dd_get [] d b) ts) \<noteq> []"
  proof
    fix ts assume "ts \<in> set tss"
    then have "ts \<in> fst ` set (dd_get [] d b)" using assms(2) by blast
    from grouped_group_at(2)[OF assms(1) this]
    show "avg_lat (dd_get empty_group (dd_get [] d b) ts) \<noteq> [] \<and>
             max_lat (dd_get empty_group (dd_get [] d b) ts) \<noteq> [] \<and>
             p99_lat (dd_get empty_group (dd_get [] d b) ts) \<noteq> []"
      unfolding g by (simp add: group_of_def)
  qed
  show ?thesis
    unfolding aggregate_explicit[OF ne] g by (simp add: empty_series_def group_of_def)
qed

section \<open>Figures of the grouped samples\<close>

lemma plot_one_grouped:
  assumes "grouped d ss" and "plot_one E csv d b = Inr (Some (p, fig))"
  shows "distinct (timestamps (plotted fig))"
    and "set (timestamps (plotted fig)) = {ts. matching b ts ss \<noteq> []}"
    and "plotted fig =
      \<lparr>timestamps = timestamps (plotted fig),
       avg_lats = map (\<lambda>ts. mean (map s_avg (matching b ts ss))) (timestamps (plotted fig)),
       max_lats = map (\<lambda>ts. mean (map s_max (matching b ts ss))) (timestamps (plotted fig)),
       p99_lats = map (\<lambda>ts. mean (map s_p99 (matching b ts ss))) (timestamps (plotted fig)),
       throughputs = map (\<lambda>ts. sum_list (map s_thr (matching b ts ss))) (timestamps (plotted fig))\<rparr>"
proof -
  from plot_oneD[OF assms(2)] obtain tss s where
    tss: "sorted_dt (map fst (dd_get [] d b)) = Inr tss"
    and s: "aggregate (dd_get [] d b) tss empty_series = Inr s"
    and fig: "plotted fig = s"
    by blast
  have keys: "set tss = fst ` set (dd_get [] d b)"
    using set_sorted_dt[OF tss] by simp
  then have "set tss \<subseteq> fst ` set (dd_get [] d b)" by simp
  from aggregate_grouped[OF assms(1) this] s
  have s': "s = \<lparr>timestamps = tss,
          avg_lats = map (\<lambda>ts. mean (map s_avg (matching b ts ss))) tss,
          max_lats = map (\<lambda>ts. mean (map s_max (matching b ts ss))) tss,
          p99_lats = map (\<lambda>ts. mean (map s_p99 (matching b ts ss))) tss,
          throughputs = map (\<lambda>ts. sum_list (map s_thr (matching b ts ss))) tss\<rparr>"
    by simp
  have ts: "timestamps (plotted fig) = tss" unfolding fig s' by simp
  show "distinct (timestamps (plotted fig))"
    unfolding ts distinct_sorted_dt[OF tss] by (rule groupedD(3)[OF assms(1)])
  show "set (timestamps (plotted fig)) = {ts. matching b ts ss \<noteq> []}"
    unfolding ts keys groupedD(4)[OF assms(1)] by (auto simp: matching_nonempty_iff)
  show "plotted fig =
      \<lparr>timestamps = timestamps (plotted fig),
       avg_lats = map (\<lambda>ts. mean (map s_avg (matching b ts ss))) (timestamps (plotted fig)),
       max_lats = map (\<lambda>ts. mean (map s_max (matching b ts ss))) (timestamps (plotted fig)),
       p99_lats = map (\<lambda>ts. mean (map s_p99 (matching b ts ss))) (timestamps (plotted fig)),
       throughputs = map (\<lambda>ts. sum_list (map s_thr (matching b ts ss))) (timestamps (plotted fig))\<rparr>"
    unfolding ts unfolding fig by (rule s')
qed

lemma main_saved_rows:
  assumes "main E argv = (st, out)" and "x \<in> set (saved st)"
    and "csv_rows E (argv ! 1) = Some rows"
  shows "\<exists>d. read_rows E rows [] = Inr d \<and>
           (\<exists>b \<in> fst ` set d. plot_one E (argv ! 1) d b = Inr (Some x))"
  using main_saved[OF assms(1,2)] assms(3) by auto

section \<open>Output paths and returning runs\<close>

lemma replace_ne_dat_suffix:
  "\<not> contains_str ''.dat'' stem \<Longrightarrow>
     replace_ne ''.dat'' new (stem @ ''.dat'') = stem @ new"
proof (induction stem)
  case Nil
  show ?case by simp
next
  case (Cons c cs)
  have nc: "\<not> contains_str ''.dat'' cs" and nt: "take 4 (c # cs) \<noteq> ''.dat''"
    using Cons.prems by (auto simp: numeral_eq_Suc)
  have "take 4 ((c # cs) @ ''.dat'') \<noteq> ''.dat''"
  proof (cases cs)
    case Nil
    then show ?thesis by simp
  next
    case c1: (Cons x xs)
    show ?thesis
    proof (cases xs)
      case Nil
      with c1 show ?thesis by simp
    next
      case c2: (Cons y ys)
      show ?thesis
      proof (cases ys)
        case Nil
        with c1 c2 show ?thesis by simp
      next
        case (Cons z zs)
        with c1 c2 nt show ?thesis by simp
      qed
    qed
  qed
  then show ?case using Cons.IH[OF nc] by (auto simp add: numeral_eq_Suc)
qed

lemma output_path_dat:
  "\<not> contains_str ''.dat'' stem \<Longrightarrow>
     output_path (stem @ ''.dat'') b = stem @ ''_'' @ b @ ''_metrics.png''"
  by (simp add: output_path_def replace_str_def replace_ne_dat_suffix)

lemma replace_ne_read_write:
  "contains_str ''.dat'' s \<Longrightarrow>
     replace_ne ''.dat'' ''_READ_metrics.png'' s \<noteq> replace_ne ''.dat'' ''_WRITE_metrics.png'' s"
  by (induction s) auto

lemma output_path_read_write:
  "contains_str ''.dat'' csv \<Longrightarrow> output_path csv ''READ'' \<noteq> output_path csv ''WRITE''"
  using replace_ne_read_write[of csv] by (simp add: output_path_def replace_str_def)

lemma plot_one_not_None:
  assumes "grouped d ss" and "b \<in> fst ` set d"
  shows "plot_one E csv d b \<noteq> Inr None"
proof
  assume none: "plot_one E csv d b = Inr None"
  from assms have "b \<in> s_type ` set ss" using groupedD(2) by blast
  then have ne: "fst ` set (dd_get [] d b) \<noteq> {}"
    unfolding groupedD(4)[OF assms(1)] by auto
  show False
  proof (cases "sorted_dt (map fst (dd_get [] d b))")
    case (Inl e)
    with none show ?thesis by (simp add: plot_one_def)
  next
    case tss: (Inr tss)
    have keys: "set tss = fst ` set (dd_get [] d b)"
      using set_sorted_dt[OF tss] by simp
    then have "set tss \<subseteq> fst ` set (dd_get [] d b)" by simp
    note agg = aggregate_grouped[OF assms(1) this]
    from keys ne obtain t rest where "tss = t # rest" by (cases tss) auto
    with none tss agg show ?thesis
      by (simp add: plot_one_def Let_def split: sum.splits option.splits)
  qed
qed

lemma main_not_raised:
  assumes "main E argv = (st, out)" and "out = Returned \<or> out = SysExit 0"
    and "csv_rows E (argv ! 1) = Some rows"
  shows "\<exists>d. read_rows E rows [] = Inr d \<and> \<not> length argv < 2 \<and>
           (if d = [] then st = \<lparr>stdout = [''No READ/WRITE test data found''], saved = []\<rparr>
            else plot_types E (argv ! 1) d (sort (map fst d)) \<lparr>stdout = [], saved = []\<rparr> = (st, Returned))"
proof (cases "length argv < 2")
  case True
  with assms(1,2) show ?thesis by (auto simp: main_def)
next
  case len: False
  show ?thesis
  proof (cases "read_rows E rows []")
    case (Inl e)
    with assms len show ?thesis by (auto simp: main_def)
  next
    case d: (Inr d)
    show ?thesis
    proof (cases "d = []")
      case True
      with assms len d show ?thesis by (auto simp: main_def)
    next
      case False
      with assms(1,3) len d
      have pt: "plot_types E (argv ! 1) d (sort (map fst d)) \<lparr>stdout = [], saved = []\<rparr> = (st, out)"
        by (simp add: main_def)
      have "out \<noteq> SysExit 0"
      proof
        assume "out = SysExit 0"
        have "\<And>st0 st'. plot_types E (argv ! 1) d bs st0 = (st', SysExit 0) \<Longrightarrow> False" for bs
          by (induction bs) (auto split: sum.splits option.splits)
        with pt \<open>out = SysExit 0\<close> show False by blast
      qed
      with assms(2) pt len d False show ?thesis by auto
    qed
  qed
qed

lemma figures_all_Some:
  assumes "\<forall>b \<in> set bs. \<exists>fig. plot_one E csv d b = Inr (Some (output_path csv b, fig))"
  shows "map fst (figures E csv d bs) = map (output_path csv) bs"
  using assms by (induction bs) (auto simp: figures_def)

lemma plot_one_path:
  "plot_one E csv d b = Inr (Some x) \<Longrightarrow> fst x = output_path csv b"
  using plot_oneD[of E csv d b "fst x" "snd x"] by auto


lemma figures_Cons:
  "figures E csv d (b # bs) =
     (case plot_one E csv d b of Inr (Some x) \<Rightarrow> [x] | _ \<Rightarrow> []) @ figures E csv d bs"
  by (simp add: figures_def)

lemma figures_member:
  "b \<in> set bs \<Longrightarrow> plot_one E csv d b = Inr (Some x) \<Longrightarrow> x \<in> set (figures E csv d bs)"
proof (induction bs)
  case Nil
  then show ?case by simp
next
  case (Cons a bs)
  then show ?case by (cases "b = a") (simp_all add: figures_Cons)
qed

lemma present_type_is_key:
  assumes "read_rows E rows [] = Inr d" and "r \<in> set rows"
    and "r ''bench_type'' = Some (PyStr b)" and "b = ''READ'' \<or> b = ''WRITE''"
  shows "b \<in> fst ` set d"
proof -
  from read_rows_all_parse[OF assms(1,2)] obtain opt where p: "parse_row E r = Inr opt" by blast
  from parse_row_accepted[OF p assms(3,4)] obtain s where s: "opt = Some s" "s_type s = b"
    by blast
  have "s \<in> set (parsed E rows)" using parsed_member[OF assms(2)] p s by simp
  then have "b \<in> s_type ` set (parsed E rows)" using s by force
  then show ?thesis
    unfolding groupedD(2)[OF read_rows_parsed[OF assms(1)]] .
qed

lemma key_is_present_type:
  assumes "read_rows E rows [] = Inr d" and "b \<in> fst ` set d"
  shows "(b = ''READ'' \<or> b = ''WRITE'') \<and> (\<exists>r \<in> set rows. r ''bench_type'' = Some (PyStr b))"
proof -
  from assms(2) have "b \<in> s_type ` set (parsed E rows)"
    unfolding groupedD(2)[OF read_rows_parsed[OF assms(1)]] .
  then obtain s where s: "s \<in> set (parsed E rows)" "s_type s = b" by auto
  from parsed_origin[OF s(1)] obtain r where r: "r \<in> set rows" "parse_row E r = Inr (Some s)"
    by blast
  from parse_row_Some(1,2)[OF r(2)] r(1) s(2) show ?thesis by auto
qed

section \<open>Discarded rows and the number of figures\<close>

lemma read_float_csv_rows [simp]: "read_float (E\<lparr>csv_rows := x\<rparr>) r k = read_float E r k"
  by (simp add: read_float_def split: sum.splits pyval.splits)

lemma parse_row_csv_rows [simp]: "parse_row (E\<lparr>csv_rows := x\<rparr>) r = parse_row E r"
  by (simp add: parse_row_def split: sum.splits)

lemma read_rows_csv_rows [simp]: "read_rows (E\<lparr>csv_rows := x\<rparr>) rows d = read_rows E rows d"
  by (induction rows arbitrary: d) (simp_all split: sum.splits option.splits)

lemma plot_one_csv_rows [simp]: "plot_one (E\<lparr>csv_rows := x\<rparr>) csv d b = plot_one E csv d b"
  by (simp add: plot_one_def Let_def split: sum.splits list.splits)

lemma plot_types_csv_rows [simp]:
  "plot_types (E\<lparr>csv_rows := x\<rparr>) csv d bs st = plot_types E csv d bs st"
  by (induction bs arbitrary: st) (simp_all split: sum.splits option.splits)

lemma read_rows_filter_accepted:
  "\<forall>r \<in> set rows. r ''bench_type'' \<noteq> None \<Longrightarrow>
     read_rows E (filter accepted rows) d = read_rows E rows d"
  by (induction rows arbitrary: d) (simp_all add: parse_row_not_accepted split: sum.splits option.splits)

lemma read_rows_has_type:
  assumes "read_rows E rows d = Inr d'" and "r \<in> set rows"
  shows "r ''bench_type'' \<noteq> None"
proof -
  from read_rows_all_parse[OF assms] obtain opt where "parse_row E r = Inr opt" by blast
  then show ?thesis by (cases "r ''bench_type''") (simp_all add: parse_row_def get_field_def)
qed

lemma main_filter_accepted:
  assumes "csv_rows E (argv ! 1) = Some rows" and "read_rows E rows [] = Inr d"
  shows "main (E\<lparr>csv_rows := (csv_rows E)(argv ! 1 \<mapsto> filter accepted rows)\<rparr>) argv = main E argv"
proof -
  have "\<forall>r \<in> set rows. r ''bench_type'' \<noteq> None"
    using read_rows_has_type[OF assms(2)] by blast
  from read_rows_filter_accepted[OF this, of E "[]"] assms
  show ?thesis by (simp add: main_def Let_def)
qed

lemma types_present_eq:
  assumes "read_rows E rows [] = Inr d"
  shows "(\<lambda>r. r ''bench_type'') ` set rows \<inter> {Some (PyStr ''READ''), Some (PyStr ''WRITE'')} =
         (\<lambda>b. Some (PyStr b)) ` fst ` set d"
proof (intro set_eqI iffI)
  fix x
  assume a: "x \<in> (\<lambda>r. r ''bench_type'') ` set rows \<inter> {Some (PyStr ''READ''), Some (PyStr ''WRITE'')}"
  from a have "x \<in> (\<lambda>r. r ''bench_type'') ` set rows" by (rule IntD1)
  then obtain r where r: "r \<in> set rows" and xr: "x = r ''bench_type''" by (rule imageE)
  from a have "x \<in> {Some (PyStr ''READ''), Some (PyStr ''WRITE'')}" by (rule IntD2)
  then obtain b where b: "b = ''READ'' \<or> b = ''WRITE''" and x: "x = Some (PyStr b)"
    by blast
  have "r ''bench_type'' = Some (PyStr b)" using xr x by simp
  from present_type_is_key[OF assms r this b] x
  show "x \<in> (\<lambda>b. Some (PyStr b)) ` fst ` set d" by blast
next
  fix x
  assume "x \<in> (\<lambda>b. Some (PyStr b)) ` fst ` set d"
  then obtain b where b: "b \<in> fst ` set d" and x: "x = Some (PyStr b)" by blast
  from key_is_present_type[OF assms b] obtain r where
    bb: "b = ''READ'' \<or> b = ''WRITE''" and r: "r \<in> set rows" "r ''bench_type'' = Some (PyStr b)"
    by blast
  have 1: "x \<in> (\<lambda>r. r ''bench_type'') ` set rows"
    unfolding x r(2)[symmetric] using r(1) by (rule imageI)
  have 2: "x \<in> {Some (PyStr ''READ''), Some (PyStr ''WRITE'')}"
    unfolding x using bb by blast
  from 1 2 show "x \<in> (\<lambda>r. r ''bench_type'') ` set rows \<inter> {Some (PyStr ''READ''), Some (PyStr ''WRITE'')}"
    by (rule IntI)
qed

lemma card_types_present:
  assumes "read_rows E rows [] = Inr d"
  shows "card ((\<lambda>r. r ''bench_type'') ` set rows \<inter>
               {Some (PyStr ''READ''), Some (PyStr ''WRITE'')}) = length d"
proof -
  have "inj (\<lambda>b. Some (PyStr b))" by (simp add: inj_def)
  then have "card ((\<lambda>b. Some (PyStr b)) ` fst ` set d) = card (fst ` set d)"
    by (simp add: card_image inj_on_def)
  also have "\<dots> = card (set (map fst d))" by simp
  also have "\<dots> = length (map fst d)"
    by (rule distinct_card[OF groupedD(1)[OF read_rows_parsed[OF assms]]])
  finally show ?thesis unfolding types_present_eq[OF assms] by simp
qed

lemma returned_paths:
  assumes "read_rows E rows [] = Inr d"
    and "plot_types E csv d (sort (map fst d)) st0 = (st, Returned)"
  shows "map fst (saved st) = map fst (saved st0) @ map (output_path csv) (sort (map fst d))"
proof -
  note R = plot_types_Returned[OF assms(2)]
  have "\<forall>b \<in> set (sort (map fst d)).
          \<exists>fig. plot_one E csv d b = Inr (Some (output_path csv b, fig))"
  proof
    fix b assume b: "b \<in> set (sort (map fst d))"
    with R obtain res where res: "plot_one E csv d b = Inr res" by blast
    have "b \<in> fst ` set d" using b by simp
    from plot_one_not_None[OF read_rows_parsed[OF assms(1)] this, of E csv] res
    obtain x where x: "res = Some x" by (cases res) auto
    from plot_one_path[OF res[unfolded x]] res x
    show "\<exists>fig. plot_one E csv d b = Inr (Some (output_path csv b, fig))"
      by (cases x) auto
  qed
  from figures_all_Some[OF this] R show ?thesis by simp
qed

section \<open>Plotter B\<close>

lemma start_time_Some:
  assumes "m_rows mf \<noteq> []"
  shows "start_time mf = Some (Min (m_timestamp ` set (m_rows mf)))"
    and "Min (m_timestamp ` set (m_rows mf)) \<in> m_timestamp ` set (m_rows mf)"
    and "r \<in> set (m_rows mf) \<Longrightarrow> Min (m_timestamp ` set (m_rows mf)) \<le> m_timestamp r"
proof -
  show "start_time mf = Some (Min (m_timestamp ` set (m_rows mf)))"
    using assms by (simp add: start_time_def)
  have fin: "finite (m_timestamp ` set (m_rows mf))" by simp
  have ne: "m_timestamp ` set (m_rows mf) \<noteq> {}" using assms by simp
  show "Min (m_timestamp ` set (m_rows mf)) \<in> m_timestamp ` set (m_rows mf)"
    by (rule Min_in[OF fin ne])
  show "r \<in> set (m_rows mf) \<Longrightarrow> Min (m_timestamp ` set (m_rows mf)) \<le> m_timestamp r"
    by (rule Min_le[OF fin]) simp
qed

lemma main_b_Returned:
  assumes "main_b B prefix = (st, Returned)"
    and "load_frames B (prefix @ ''gradual_overload_metrics.csv'')
           (prefix @ ''phase_transitions.csv'') = Inr (mf, pf)"
  shows "printed st = (''Visualization written to '' @ prefix @ ''visualization.png'') # summary mf"
  using assms
  by (auto simp: main_b_def Let_def split: sum.splits option.splits)

lemma annotate_failure_marks:
  "\<forall>d \<in> set ds. \<not> is_phase_mark d \<Longrightarrow> \<forall>d \<in> set (annotate_failure mf ds). \<not> is_phase_mark d"
  by (auto simp: annotate_failure_def split: list.splits)

lemma render_no_phases:
  assumes "p_rows pf = []"
    and "''throughput'' \<in> set (m_columns mf)" and "''avg_latency_ms'' \<in> set (m_columns mf)"
    and "''workload'' \<in> set (m_columns mf)"
  shows "\<exists>ds. render mf pf = Inr ds \<and> (\<forall>d \<in> set ds. \<not> is_phase_mark d)"
proof -
  obtain ds1 where ds1: "plot_series mf = Inr ds1" and m1: "\<forall>d \<in> set ds1. \<not> is_phase_mark d"
    using assms(2,3,4) by (auto simp: plot_series_def Let_def)
  have "render mf pf = Inr (annotate_failure mf ds1)"
    using ds1 assms(1) by (simp add: render_def shade_last_def)
  with annotate_failure_marks[OF m1] show ?thesis by blast
qed

section \<open>Permuting the rows\<close>

lemma read_rows_succeeds:
  "\<forall>r \<in> set rows. \<exists>opt. parse_row E r = Inr opt \<Longrightarrow> \<exists>d'. read_rows E rows d = Inr d'"
proof (induction rows arbitrary: d)
  case Nil
  show ?case by simp
next
  case (Cons r rows)
  from Cons.prems obtain opt where opt: "parse_row E r = Inr opt" by auto
  from Cons.prems have rest: "\<forall>r \<in> set rows. \<exists>opt. parse_row E r = Inr opt" by simp
  show ?case
  proof (cases opt)
    case None
    with opt Cons.IH[OF rest, of d] show ?thesis by simp
  next
    case (Some s)
    with opt Cons.IH[OF rest, of "add_sample s d"] show ?thesis by simp
  qed
qed

lemma mset_parsed:
  "mset (parsed E rows) =
     (\<Sum>r \<in># mset rows. mset (case parse_row E r of Inr (Some s) \<Rightarrow> [s] | _ \<Rightarrow> []))"
  by (induction rows) (simp_all add: parsed_Cons parsed_def)

lemma mset_parsed_cong: "mset rows' = mset rows \<Longrightarrow> mset (parsed E rows') = mset (parsed E rows)"
  by (simp add: mset_parsed)

lemma mean_mset:
  assumes "mset xs = mset ys"
  shows "mean (map f xs) = mean (map f ys)"
proof -
  have "sum_list (map f xs) = sum_mset (image_mset f (mset xs))"
    by (simp add: sum_mset_sum_list[symmetric])
  moreover have "sum_list (map f ys) = sum_mset (image_mset f (mset ys))"
    by (simp add: sum_mset_sum_list[symmetric])
  moreover have "length xs = length ys" using assms by (rule mset_eq_length)
  ultimately show ?thesis using assms by (simp add: mean_def)
qed

lemma sum_list_mset:
  fixes f :: "'a \<Rightarrow> rat"
  assumes "mset xs = mset ys"
  shows "sum_list (map f xs) = sum_list (map f ys)"
proof -
  have "sum_list (map f xs) = sum_mset (image_mset f (mset xs))"
    by (simp add: sum_mset_sum_list[symmetric])
  moreover have "sum_list (map f ys) = sum_mset (image_mset f (mset ys))"
    by (simp add: sum_mset_sum_list[symmetric])
  ultimately show ?thesis using assms by simp
qed

lemma mset_matching: "mset ss' = mset ss \<Longrightarrow> mset (matching b ts ss') = mset (matching b ts ss)"
  by (simp add: matching_def)

lemma sort_key_unique:
  assumes "distinct xs" and "distinct ys" and "set xs = set ys" and "inj_on f (set xs)"
  shows "sort_key f xs = sort_key f ys"
proof -
  let ?A = "sort_key f xs" and ?B = "sort_key f ys"
  have "distinct (map f ?A)" using assms(1,4) by (simp add: distinct_map)
  moreover have "distinct (map f ?B)" using assms(2,3,4) by (simp add: distinct_map)
  moreover have "set (map f ?A) = set (map f ?B)" using assms(3) by simp
  ultimately have "map f ?A = map f ?B"
    using sorted_sort_key[of f xs] sorted_sort_key[of f ys]
    by (intro sorted_distinct_set_unique)
  moreover have "inj_on f (set ?A \<union> set ?B)" using assms(3,4) by simp
  ultimately show ?thesis by (simp add: inj_on_map_eq_map)
qed

lemma dt_micros_inj:
  assumes "\<not> (\<exists>a \<in> set xs. \<exists>b \<in> set xs. is_aware a \<noteq> is_aware b)"
  shows "inj_on dt_micros (set xs)"
proof (rule inj_onI)
  fix a b
  assume a: "a \<in> set xs" and b: "b \<in> set xs" and eq: "dt_micros a = dt_micros b"
  from assms a b have "is_aware a = is_aware b" by blast
  with eq show "a = b" by (cases a; cases b) simp_all
qed

lemma sorted_dt_cong:
  assumes "distinct xs" and "distinct ys" and "set xs = set ys"
  shows "sorted_dt xs = sorted_dt ys"
proof (cases "\<exists>a \<in> set xs. \<exists>b \<in> set xs. is_aware a \<noteq> is_aware b")
  case True
  then have "sorted_dt xs = Inl TypeError" unfolding sorted_dt_def by (rule if_P)
  moreover from True have "\<exists>a \<in> set ys. \<exists>b \<in> set ys. is_aware a \<noteq> is_aware b"
    unfolding assms(3) .
  then have "sorted_dt ys = Inl TypeError" unfolding sorted_dt_def by (rule if_P)
  ultimately show ?thesis by simp
next
  case False
  then have x: "sorted_dt xs = Inr (sort_key dt_micros xs)"
    unfolding sorted_dt_def by (rule if_not_P)
  from False have "\<not> (\<exists>a \<in> set ys. \<exists>b \<in> set ys. is_aware a \<noteq> is_aware b)"
    unfolding assms(3) .
  then have y: "sorted_dt ys = Inr (sort_key dt_micros ys)"
    unfolding sorted_dt_def by (rule if_not_P)
  show ?thesis
    unfolding x y using sort_key_unique[OF assms dt_micros_inj[OF False]] by simp
qed

lemma plot_one_grouped_cong:
  assumes "grouped d ss" and "grouped d' ss'" and "mset ss' = mset ss"
  shows "plot_one E csv d' b = plot_one E csv d b"
proof -
  have sets: "set ss' = set ss" using assms(3) by (rule mset_eq_setD)
  have keys: "set (map fst (dd_get [] d' b)) = set (map fst (dd_get [] d b))"
    using groupedD(4)[OF assms(1), of b] groupedD(4)[OF assms(2), of b] sets by simp
  have sd: "sorted_dt (map fst (dd_get [] d' b)) = sorted_dt (map fst (dd_get [] d b))"
    by (rule sorted_dt_cong[OF groupedD(3)[OF assms(2)] groupedD(3)[OF assms(1)] keys])
  show ?thesis
  proof (cases "sorted_dt (map fst (dd_get [] d b))")
    case (Inl e)
    with sd show ?thesis by (simp add: plot_one_def)
  next
    case (Inr tss)
    have sub: "set tss \<subseteq> fst ` set (dd_get [] d b)"
      using set_sorted_dt[OF Inr] by simp
    then have sub': "set tss \<subseteq> fst ` set (dd_get [] d' b)"
      using keys by simp
    have "aggregate (dd_get [] d' b) tss empty_series = aggregate (dd_get [] d b) tss empty_series"
      unfolding aggregate_grouped[OF assms(1) sub] aggregate_grouped[OF assms(2) sub']
      using mean_mset[OF mset_matching[OF assms(3)]] sum_list_mset[OF mset_matching[OF assms(3)]]
      by simp
    with sd Inr show ?thesis by (simp add: plot_one_def)
  qed
qed

lemma plot_types_cong:
  assumes "\<And>b. plot_one E csv d' b = plot_one E csv d b"
  shows "plot_types E csv d' bs st = plot_types E csv d bs st"
  by (induction bs arbitrary: st) (simp_all add: assms split: sum.splits option.splits)

lemma grouped_keys_cong:
  assumes "grouped d ss" and "grouped d' ss'" and "mset ss' = mset ss"
  shows "sort (map fst d') = sort (map fst d)" and "d' = [] \<longleftrightarrow> d = []"
proof -
  have sets: "set ss' = set ss" using assms(3) by (rule mset_eq_setD)
  have k: "set (map fst d') = set (map fst d)"
    using groupedD(2)[OF assms(1)] groupedD(2)[OF assms(2)] sets by simp
  show "sort (map fst d') = sort (map fst d)"
    using k groupedD(1)[OF assms(1)] groupedD(1)[OF assms(2)]
    by (intro sorted_distinct_set_unique) simp_all
  from k show "d' = [] \<longleftrightarrow> d = []" by (cases d; cases d') auto
qed

section \<open>Floats and their decimals\<close>

lemma round_half_even_close: "\<bar>of_int (round_half_even y) - y\<bar> \<le> 1 / 2"
proof -
  have "of_int \<lfloor>y\<rfloor> \<le> y" and "y < of_int \<lfloor>y\<rfloor> + 1" by linarith+
  then show ?thesis by (auto simp: round_half_even_def Let_def)
qed

lemma round_half_even_nonneg: "0 \<le> y \<Longrightarrow> 0 \<le> round_half_even y"
  by (auto simp: round_half_even_def Let_def)

lemma pow2_eq: "pow2 e = power_int 2 e"
  by (simp add: pow2_def power_int_def power_one_over)

lemma pow2_pos: "0 < pow2 e"
  by (simp add: pow2_def)

lemma pow2_shift: "pow2 (a - 52) * 2 ^ 52 = pow2 a"
  by (simp add: pow2_eq power_int_diff)

lemma ilog2_le:
  assumes "0 < x"
  shows "pow2 (ilog2 x) \<le> x"
proof (cases "1 \<le> x")
  case True
  then have fl: "0 < \<lfloor>x\<rfloor>" by linarith
  from bitlen_bounds[OF fl] have b: "2 ^ nat (bitlen \<lfloor>x\<rfloor> - 1) \<le> \<lfloor>x\<rfloor>" by simp
  have "floorlog 2 (nat \<lfloor>x\<rfloor>) \<noteq> 0"
    using fl by (simp add: floorlog_eq_zero_iff)
  then have pos: "0 \<le> bitlen \<lfloor>x\<rfloor> - 1"
    by (simp add: bitlen_def)
  have "(2 :: rat) ^ nat (bitlen \<lfloor>x\<rfloor> - 1) = of_int (2 ^ nat (bitlen \<lfloor>x\<rfloor> - 1))" by simp
  also have "\<dots> \<le> of_int \<lfloor>x\<rfloor>" using b by (simp only: of_int_le_iff)
  also have "\<dots> \<le> x" by simp
  finally show ?thesis using True pos by (simp add: ilog2_def pow2_def)
next
  case False
  then have x1: "x < 1" by simp
  let ?n = "\<lceil>1 / x\<rceil>"
  have y: "1 < 1 / x" using assms x1 by simp
  then have n2: "2 \<le> ?n" by linarith
  then have n1: "0 < ?n - 1" by simp
  let ?c = "bitlen (?n - 1)"
  from bitlen_bounds[OF n1] have "?n - 1 < 2 ^ nat ?c" by simp
  then have nc: "?n \<le> 2 ^ nat ?c" by simp
  have "1 / x \<le> of_int ?n" by (rule le_of_int_ceiling)
  also have "(of_int ?n :: rat) \<le> of_int (2 ^ nat ?c)"
    using nc by (simp only: of_int_le_iff)
  also have "(of_int (2 ^ nat ?c) :: rat) = 2 ^ nat ?c" by simp
  finally have "1 / x \<le> 2 ^ nat ?c" .
  then have le: "1 / 2 ^ nat ?c \<le> x"
    using assms by (simp add: field_simps)
  have "floorlog 2 (nat (?n - 1)) \<noteq> 0"
    using n1 by (simp add: floorlog_eq_zero_iff)
  then have cpos: "0 < ?c" by (simp add: bitlen_def)
  show ?thesis using False le cpos by (simp add: ilog2_def pow2_def)
qed

lemma float64_of_nonneg: "0 \<le> x \<Longrightarrow> 0 \<le> float64_of x"
  by (auto simp: float64_of_def Let_def intro!: mult_nonneg_nonneg round_half_even_nonneg
        divide_nonneg_pos pow2_pos less_imp_le[OF pow2_pos])

lemma float64_of_close:
  "\<bar>float64_of x - x\<bar> \<le> \<bar>x\<bar> / 2 ^ 53"
proof (cases "x = 0")
  case True
  then show ?thesis by (simp add: float64_of_def)
next
  case False
  define a where "a = \<bar>x\<bar>"
  define P where "P = pow2 (ilog2 a - 52)"
  define m where "m = round_half_even (a / P)"
  have a: "0 < a" using False by (simp add: a_def)
  have P: "0 < P" by (simp add: P_def pow2_pos)
  have f: "float64_of x = sgn x * of_int m * P"
    using False by (simp add: float64_of_def Let_def a_def P_def m_def)
  have x: "x = sgn x * a" by (simp add: a_def mult.commute abs_sgn)
  have "float64_of x - x = sgn x * (of_int m * P - a)"
    unfolding f by (subst (2) x) (simp add: algebra_simps)
  then have "\<bar>float64_of x - x\<bar> = \<bar>of_int m * P - a\<bar>"
    using False by (simp add: abs_mult abs_sgn_eq)
  also have "of_int m * P - a = P * (of_int m - a / P)"
    using P by (simp add: field_simps)
  also have "\<bar>P * (of_int m - a / P)\<bar> = P * \<bar>of_int m - a / P\<bar>"
    using P by (simp add: abs_mult)
  also have "\<dots> \<le> P * (1 / 2)"
    using round_half_even_close[of "a / P"] P unfolding m_def
    by (intro mult_left_mono) simp_all
  also have "P * (1 / 2) = pow2 (ilog2 a) / 2 ^ 53"
    using pow2_shift[of "ilog2 a"] by (simp add: P_def field_simps)
  also have "\<dots> \<le> a / 2 ^ 53"
    using ilog2_le[OF a] by (simp add: divide_right_mono)
  finally show ?thesis by (simp add: a_def)
qed

lemma digit_char_value:
  assumes "0 \<le> d" and "d < 10"
  shows "of_char (''0123456789'' ! nat d) - 48 = (d :: int)"
proof -
  from assms have "d = 0 \<or> d = 1 \<or> d = 2 \<or> d = 3 \<or> d = 4 \<or> d = 5 \<or> d = 6 \<or> d = 7 \<or> d = 8 \<or> d = 9"
    by arith
  then show ?thesis by (elim disjE) simp_all
qed

lemma digits_value_snoc:
  "digits_value (s @ [c]) = 10 * digits_value s + (of_char c - 48)"
  by (simp add: digits_value_def)

lemma str_digits_value: "0 \<le> n \<Longrightarrow> digits_value (str_digits n) = n"
proof (induction n rule: str_digits.induct)
  case (1 n)
  show ?case
  proof (cases "n < 10")
    case True
    with "1.prems" show ?thesis
      by (subst str_digits.simps) (simp add: digits_value_def digit_char_value)
  next
    case False
    then have "0 \<le> n div 10" by simp
    with "1.IH"[OF False] have ih: "digits_value (str_digits (n div 10)) = n div 10" by simp
    have d: "of_char (''0123456789'' ! nat (n mod 10)) - 48 = n mod 10"
      by (rule digit_char_value) simp_all
    show ?thesis
      using False by (subst str_digits.simps) (simp add: digits_value_snoc ih d)
  qed
qed

lemma str_digits_one: "0 \<le> n \<Longrightarrow> n < 10 \<Longrightarrow> length (str_digits n) = 1"
  by (subst str_digits.simps) simp

lemma format_f_one_decimal:
  assumes "0 \<le> x"
  shows "\<exists>ip fd. format_f 1 (Num x) = ip @ ''.'' @ fd \<and> length fd = 1 \<and>
           \<bar>of_int (digits_value ip) + of_int (digits_value fd) / 10 - float64_of x\<bar> \<le> 1 / 20"
proof -
  define v where "v = float64_of x"
  define n where "n = round_half_even (v * 10)"
  have v: "0 \<le> v" unfolding v_def by (rule float64_of_nonneg[OF assms])
  then have n: "0 \<le> n" unfolding n_def by (intro round_half_even_nonneg) simp
  have m: "0 \<le> n mod 10" "n mod 10 < 10" by simp_all
  have d: "0 \<le> n div 10" using n by simp
  have len: "length (str_digits (n mod 10)) = 1" by (rule str_digits_one[OF m])
  have fmt: "format_f 1 (Num x) = str_digits (n div 10) @ ''.'' @ str_digits (n mod 10)"
    using assms v len by (simp add: format_f_def Let_def n_def v_def abs_of_nonneg)
  have "of_int (digits_value (str_digits (n div 10))) +
          of_int (digits_value (str_digits (n mod 10))) / 10 = (of_int n :: rat) / 10"
  proof -
    have "(of_int n :: rat) = of_int (10 * (n div 10) + n mod 10)" by simp
    also have "\<dots> = 10 * of_int (n div 10) + of_int (n mod 10)" by (simp only: of_int_add of_int_mult of_int_numeral)
    finally show ?thesis
      unfolding str_digits_value[OF d] str_digits_value[OF m(1)] by simp
  qed
  moreover have "\<bar>(of_int n :: rat) / 10 - v\<bar> \<le> 1 / 20"
  proof -
    have "\<bar>of_int n - v * 10\<bar> \<le> 1 / 2" unfolding n_def by (rule round_half_even_close)
    then show ?thesis by (simp add: abs_le_iff field_simps)
  qed
  ultimately show ?thesis using fmt len unfolding v_def by metis
qed


lemma time_seconds_Max_nonneg:
  assumes "m_rows mf \<noteq> []"
  shows "0 \<le> Max (set (m_time_seconds mf))"
proof -
  note S = start_time_Some[OF assms]
  have ts: "m_time_seconds mf =
              map (\<lambda>r. of_int (m_timestamp r - Min (m_timestamp ` set (m_rows mf))) / 1000000000)
                (m_rows mf)"
    by (simp add: m_time_seconds_def S(1))
  then have ne: "set (m_time_seconds mf) \<noteq> {}" using assms by simp
  have "Max (set (m_time_seconds mf)) \<in> set (m_time_seconds mf)"
    by (rule Max_in[OF _ ne]) simp
  then obtain r where r: "r \<in> set (m_rows mf)"
    and m: "Max (set (m_time_seconds mf)) =
              of_int (m_timestamp r - Min (m_timestamp ` set (m_rows mf))) / 1000000000"
    unfolding ts by auto
  from S(3)[OF r] show ?thesis unfolding m by simp
qed

section \<open>Paths without the extension\<close>

lemma replace_ne_absent: "\<not> contains_str old s \<Longrightarrow> replace_ne old new s = s"
  by (induction s) auto

lemma output_path_no_dat: "\<not> contains_str ''.dat'' csv \<Longrightarrow> output_path csv b = csv"
  by (simp add: output_path_def replace_str_def replace_ne_absent)

section \<open>Timestamps that are not normalised\<close>

lemma normalize_ts_unchanged:
  assumes "CHR ''+'' \<notin> set s" and "CHR ''Z'' \<notin> set s"
  shows "normalize_ts s = Inr s"
proof -
  have "replace_str ''Z'' ''+00:00'' s = s"
    unfolding replace_str_def using replace_ne_notin[OF assms(2)] by simp
  then show ?thesis using assms(1) by (simp add: normalize_ts_def)
qed

lemma six_digits:
  assumes "all_digits fr"
  shows "length (take 6 fr @ replicate (6 - length fr) CHR ''0'') = 6"
    and "all_digits (take 6 fr @ replicate (6 - length fr) CHR ''0'')"
proof -
  show "length (take 6 fr @ replicate (6 - length fr) CHR ''0'') = 6" by simp
  have z: "is_digit CHR ''0''" by (simp add: is_digit_def)
  have "list_all is_digit (take 6 fr)"
    using assms set_take_subset[of 6 fr] unfolding all_digits_def list_all_iff by blast
  moreover have "list_all is_digit (replicate (6 - length fr) CHR ''0'')"
    using z unfolding list_all_iff by simp
  ultimately show "all_digits (take 6 fr @ replicate (6 - length fr) CHR ''0'')"
    unfolding all_digits_def by simp
qed

section \<open>The properties\<close>

text \<open>
  C1. In every figure Plotter A saves for an operation type, the aggregated timestamps
  are the distinct timestamps of the accepted rows of that type, and the point at each
  timestamp holds the arithmetic means of the average, maximum and 99th-percentile
  latencies of the rows with that type and timestamp, each latency being the row's value
  divided by 1,000,000, and the sum of their throughputs. The two rows of the
  specification's example give one point with average latency 15 and throughput 150.
\<close>

theorem aggregated_point_mean_and_sum:
  assumes "main E argv = (st, out)" and "csv_rows E (argv ! 1) = Some rows"
    and "(path, fig) \<in> set (saved st)"
    and "suptitle fig = ''ZKBench Metrics - '' @ b @ '' Operations''"
  shows "distinct (timestamps (plotted fig)) \<and>
         set (timestamps (plotted fig)) = {ts. matching b ts (parsed E rows) \<noteq> []} \<and>
         avg_lats (plotted fig) =
           map (\<lambda>ts. mean (map s_avg (matching b ts (parsed E rows)))) (timestamps (plotted fig)) \<and>
         max_lats (plotted fig) =
           map (\<lambda>ts. mean (map s_max (matching b ts (parsed E rows)))) (timestamps (plotted fig)) \<and>
         p99_lats (plotted fig) =
           map (\<lambda>ts. mean (map s_p99 (matching b ts (parsed E rows)))) (timestamps (plotted fig)) \<and>
         throughputs (plotted fig) =
           map (\<lambda>ts. sum_list (map s_thr (matching b ts (parsed E rows)))) (timestamps (plotted fig)) \<and>
         (\<forall>r \<in> set rows. \<forall>s. parse_row E r = Inr (Some s) \<longrightarrow>
            s \<in> set (parsed E rows) \<and>
            r ''bench_type'' = Some (PyStr (s_type s)) \<and>
            read_float E r ''average_latency'' = Inr (1000000 * s_avg s) \<and>
            read_float E r ''max_latency'' = Inr (1000000 * s_max s) \<and>
            read_float E r ''99th_latency'' = Inr (1000000 * s_p99 s) \<and>
            read_float E r ''throughput'' = Inr (s_thr s))"
proof -
  from main_saved_rows[OF assms(1,3,2)] obtain d b' where
    d: "read_rows E rows [] = Inr d"
    and p: "plot_one E (argv ! 1) d b' = Inr (Some (path, fig))"
    by blast
  have "suptitle fig = ''ZKBench Metrics - '' @ b' @ '' Operations''"
    using plot_oneD[OF p] by blast
  with assms(4) have b: "b' = b" by simp
  have G: "grouped d (parsed E rows)" by (rule read_rows_parsed[OF d])
  note P = plot_one_grouped[OF G p[unfolded b]]
  have rows: "\<forall>r \<in> set rows. \<forall>s. parse_row E r = Inr (Some s) \<longrightarrow>
            s \<in> set (parsed E rows) \<and>
            r ''bench_type'' = Some (PyStr (s_type s)) \<and>
            read_float E r ''average_latency'' = Inr (1000000 * s_avg s) \<and>
            read_float E r ''max_latency'' = Inr (1000000 * s_max s) \<and>
            read_float E r ''99th_latency'' = Inr (1000000 * s_p99 s) \<and>
            read_float E r ''throughput'' = Inr (s_thr s)"
  proof (intro ballI allI impI)
    fix r s
    assume r: "r \<in> set rows" and ps: "parse_row E r = Inr (Some s)"
    show "s \<in> set (parsed E rows) \<and>
            r ''bench_type'' = Some (PyStr (s_type s)) \<and>
            read_float E r ''average_latency'' = Inr (1000000 * s_avg s) \<and>
            read_float E r ''max_latency'' = Inr (1000000 * s_max s) \<and>
            read_float E r ''99th_latency'' = Inr (1000000 * s_p99 s) \<and>
            read_float E r ''throughput'' = Inr (s_thr s)"
      using parse_row_Some[OF ps] parsed_member[OF r ps] by simp
  qed
  have "avg_lats (plotted fig) =
           map (\<lambda>ts. mean (map s_avg (matching b ts (parsed E rows)))) (timestamps (plotted fig))"
    by (subst P(3)) simp
  moreover have "max_lats (plotted fig) =
           map (\<lambda>ts. mean (map s_max (matching b ts (parsed E rows)))) (timestamps (plotted fig))"
    by (subst P(3)) simp
  moreover have "p99_lats (plotted fig) =
           map (\<lambda>ts. mean (map s_p99 (matching b ts (parsed E rows)))) (timestamps (plotted fig))"
    by (subst P(3)) simp
  moreover have "throughputs (plotted fig) =
           map (\<lambda>ts. sum_list (map s_thr (matching b ts (parsed E rows)))) (timestamps (plotted fig))"
    by (subst P(3)) simp
  ultimately show ?thesis using P(1,2) rows by blast
qed

theorem aggregated_point_mean_and_sum_witness:
  "\<exists>path fig.
     (path, fig) \<in> set (saved (fst (main (example_env ''summary.dat'' example_rows)
                                     [''plot_bench_metrics.py'', ''summary.dat'']))) \<and>
     suptitle fig = ''ZKBench Metrics - READ Operations'' \<and>
     timestamps (plotted fig) = [Aware 1735689600123000] \<and>
     map s_avg (matching ''READ'' (Aware 1735689600123000)
                  (parsed (example_env ''summary.dat'' example_rows) example_rows)) = [10, 20] \<and>
     map s_thr (matching ''READ'' (Aware 1735689600123000)
                  (parsed (example_env ''summary.dat'' example_rows) example_rows)) = [100, 50] \<and>
     avg_lats (plotted fig) = [15] \<and> throughputs (plotted fig) = [150]"
proof -
  let ?E = "example_env ''summary.dat'' example_rows"
  let ?fig = "\<lparr>suptitle = ''ZKBench Metrics - READ Operations'',
            time_seconds = [0],
            plotted = \<lparr>timestamps = [Aware 1735689600123000], avg_lats = [15],
                       max_lats = [30], p99_lats = [20], throughputs = [150]\<rparr>\<rparr>"
  have rows: "csv_rows ?E ([''plot_bench_metrics.py'', ''summary.dat''] ! 1) = Some example_rows"
    by (simp add: example_env_def)
  have m: "matching ''READ'' (Aware 1735689600123000) (parsed ?E example_rows) =
            [\<lparr>s_type = ''READ'', s_time = Aware 1735689600123000, s_avg = 10, s_max = 20,
              s_p99 = 15, s_thr = 100\<rparr>,
             \<lparr>s_type = ''READ'', s_time = Aware 1735689600123000, s_avg = 20, s_max = 40,
              s_p99 = 25, s_thr = 50\<rparr>]"
    by code_simp
  have "avg_lats (plotted ?fig) =
          map (\<lambda>ts. mean (map s_avg (matching ''READ'' ts (parsed ?E example_rows))))
            (timestamps (plotted ?fig)) \<and>
        throughputs (plotted ?fig) =
          map (\<lambda>ts. sum_list (map s_thr (matching ''READ'' ts (parsed ?E example_rows))))
            (timestamps (plotted ?fig))"
    using aggregated_point_mean_and_sum[OF example_run rows, of "''summary_READ_metrics.png''" ?fig "''READ''"]
    by simp
  then have "avg_lats (plotted ?fig) = [15] \<and> throughputs (plotted ?fig) = [150]"
    by simp
  then show ?thesis
    unfolding example_run m
    by (intro exI[of _ "''summary_READ_metrics.png''"] exI[of _ ?fig]) simp
qed

text \<open>
  C2 (amended). Take a timestamp \<open>base.fraction+offset\<close> or \<open>base.fractionZ\<close> whose
  fraction is a run of digits of any width, and whose base and offset are valid: they
  hold no \<open>.\<close>, \<open>+\<close> or \<open>Z\<close>, and the date-time constructor accepts them with every
  six-digit fraction. The fraction is cut or right-padded with zeros to exactly six
  digits, \<open>Z\<close> is written \<open>+00:00\<close>, the constructor receives that string, and parsing
  succeeds. A timestamp with neither \<open>+\<close> nor \<open>Z\<close> reaches the constructor unchanged.
\<close>

theorem normalize_ts_six_digits:
  assumes "\<forall>c \<in> set (base @ fr @ tz). c \<noteq> CHR ''.'' \<and> c \<noteq> CHR ''+'' \<and> c \<noteq> CHR ''Z''"
    and "all_digits fr"
    and "\<forall>six. length six = 6 \<and> all_digits six \<longrightarrow>
               fromiso (base @ ''.'' @ six @ ''+'' @ tz) \<noteq> None"
  shows "length (take 6 fr @ replicate (6 - length fr) CHR ''0'') = 6 \<and>
         normalize_ts (base @ ''.'' @ fr @ ''+'' @ tz) =
           Inr (base @ ''.'' @ (take 6 fr @ replicate (6 - length fr) CHR ''0'') @ ''+'' @ tz) \<and>
         normalize_ts (base @ ''.'' @ fr @ ''Z'') =
           Inr (base @ ''.'' @ (take 6 fr @ replicate (6 - length fr) CHR ''0'') @ ''+00:00'') \<and>
         parse_timestamp fromiso (PyStr (base @ ''.'' @ fr @ ''+'' @ tz)) =
           (case fromiso (base @ ''.'' @ (take 6 fr @ replicate (6 - length fr) CHR ''0'')
                            @ ''+'' @ tz) of
              None \<Rightarrow> Inl ValueError | Some d \<Rightarrow> Inr d) \<and>
         parse_timestamp fromiso (PyStr (base @ ''.'' @ fr @ ''Z'')) =
           (case fromiso (base @ ''.'' @ (take 6 fr @ replicate (6 - length fr) CHR ''0'')
                            @ ''+00:00'') of
              None \<Rightarrow> Inl ValueError | Some d \<Rightarrow> Inr d) \<and>
         (\<exists>d. parse_timestamp fromiso (PyStr (base @ ''.'' @ fr @ ''+'' @ tz)) = Inr d) \<and>
         (tz = ''00:00'' \<longrightarrow>
            (\<exists>d. parse_timestamp fromiso (PyStr (base @ ''.'' @ fr @ ''Z'')) = Inr d)) \<and>
         (\<forall>s. CHR ''+'' \<notin> set s \<and> CHR ''Z'' \<notin> set s \<longrightarrow> normalize_ts s = Inr s)"
proof -
  let ?six = "take 6 fr @ replicate (6 - length fr) CHR ''0''"
  have Z: "\<forall>c \<in> set (base @ fr). c \<noteq> CHR ''.'' \<and> c \<noteq> CHR ''+'' \<and> c \<noteq> CHR ''Z''"
    using assms(1) by auto
  note np = normalize_plus[OF assms(1)] and nz = normalize_Z[OF Z]
  have pp: "parse_timestamp fromiso (PyStr (base @ ''.'' @ fr @ ''+'' @ tz)) =
           (case fromiso (base @ ''.'' @ ?six @ ''+'' @ tz) of
              None \<Rightarrow> Inl ValueError | Some d \<Rightarrow> Inr d)"
    using np by (simp add: parse_timestamp_def)
  have pz: "parse_timestamp fromiso (PyStr (base @ ''.'' @ fr @ ''Z'')) =
           (case fromiso (base @ ''.'' @ ?six @ ''+00:00'') of
              None \<Rightarrow> Inl ValueError | Some d \<Rightarrow> Inr d)"
    using nz by (simp add: parse_timestamp_def)
  from six_digits[OF assms(2)] assms(3)
  have acc: "fromiso (base @ ''.'' @ ?six @ ''+'' @ tz) \<noteq> None" by blast
  then obtain d where d: "fromiso (base @ ''.'' @ ?six @ ''+'' @ tz) = Some d" by blast
  have ok: "\<exists>d. parse_timestamp fromiso (PyStr (base @ ''.'' @ fr @ ''+'' @ tz)) = Inr d"
    unfolding pp d by simp
  have okz: "\<exists>d. parse_timestamp fromiso (PyStr (base @ ''.'' @ fr @ ''Z'')) = Inr d"
    if tz: "tz = ''00:00''"
  proof -
    have "fromiso (base @ ''.'' @ ?six @ ''+00:00'') = Some d" using d unfolding tz by simp
    then show ?thesis unfolding pz by simp
  qed
  have un: "\<forall>s. CHR ''+'' \<notin> set s \<and> CHR ''Z'' \<notin> set s \<longrightarrow> normalize_ts s = Inr s"
    using normalize_ts_unchanged by blast
  have len: "length ?six = 6" by simp
  show ?thesis
    using len np nz pp pz ok okz un by (simp only: append_assoc) blast
qed

theorem normalize_ts_six_digits_witness:
  "normalize_ts ''2025-01-01T00:00:00.1+05:30'' = Inr ''2025-01-01T00:00:00.100000+05:30'' \<and>
   normalize_ts ''2025-01-01T00:00:00.1Z'' = Inr ''2025-01-01T00:00:00.100000+00:00'' \<and>
   normalize_ts ''2025-01-01T00:00:00.12345678+05:30'' = Inr ''2025-01-01T00:00:00.123456+05:30'' \<and>
   normalize_ts ''2025-01-01T00:00:00.12345678Z'' = Inr ''2025-01-01T00:00:00.123456+00:00'' \<and>
   parse_timestamp example_fromiso (PyStr ''2025-01-01T00:00:00.1+05:30'') =
     Inr (Aware 1735669800100000) \<and>
   parse_timestamp example_fromiso (PyStr ''2025-01-01T00:00:00.12345678+05:30'') =
     Inr (Aware 1735669800123456)"
proof -
  have valid: "\<forall>six. length six = 6 \<and> all_digits six \<longrightarrow>
       example_fromiso (''2025-01-01T00:00:00'' @ ''.'' @ six @ ''+'' @ ''05:30'') \<noteq> None"
    by (simp add: example_fromiso_def)
  have c: "\<forall>c \<in> set (''2025-01-01T00:00:00'' @ fr @ ''05:30'').
             c \<noteq> CHR ''.'' \<and> c \<noteq> CHR ''+'' \<and> c \<noteq> CHR ''Z''"
    if "fr = ''1'' \<or> fr = ''12345678''" for fr
    using that by auto
  have d1: "all_digits ''1''" by (simp add: all_digits_def is_digit_def)
  have d8: "all_digits ''12345678''" by (simp add: all_digits_def is_digit_def)
  have v1: "example_fromiso ''2025-01-01T00:00:00.100000+05:30'' = Some (Aware 1735669800100000)"
    by code_simp
  have v8: "example_fromiso ''2025-01-01T00:00:00.123456+05:30'' = Some (Aware 1735669800123456)"
    by code_simp
  from normalize_ts_six_digits[OF c d1 valid] normalize_ts_six_digits[OF c d8 valid]
  show ?thesis using v1 v8 by (simp add: numeral_eq_Suc)
qed

text \<open>A negative offset holds no \<open>+\<close>: the guard of line 35 skips the timestamp,
  and its one-digit fraction reaches the constructor as it is.\<close>

theorem normalize_ts_negative_offset_unchanged:
  "normalize_ts ''2025-01-01T00:00:00.1-05:00'' = Inr ''2025-01-01T00:00:00.1-05:00''"
  by (simp add: normalize_ts_def replace_str_def)

text \<open>
  C3 (amended). When the input path is \<open>stem.dat\<close> with no further \<open>.dat\<close> in the stem
  and the run returns, then for every accepted operation type \<open>b\<close> present in the rows a
  figure is saved under \<open>stem_b_metrics.png\<close>, and \<open>Saved: stem_b_metrics.png\<close> is
  printed.
\<close>

theorem image_name_for_dat_path:
  assumes "main E argv = (st, Returned)" and "csv_rows E (argv ! 1) = Some rows"
    and "argv ! 1 = stem @ ''.dat''" and "\<not> contains_str ''.dat'' stem"
    and "b = ''READ'' \<or> b = ''WRITE''"
    and "\<exists>r \<in> set rows. r ''bench_type'' = Some (PyStr b)"
  shows "(\<exists>fig. (stem @ ''_'' @ b @ ''_metrics.png'', fig) \<in> set (saved st) \<and>
                suptitle fig = ''ZKBench Metrics - '' @ b @ '' Operations'') \<and>
         ''Saved: '' @ stem @ ''_'' @ b @ ''_metrics.png'' \<in> set (stdout st)"
proof -
  from main_not_raised[OF assms(1) _ assms(2)] obtain d where
    d: "read_rows E rows [] = Inr d"
    and pt: "if d = [] then st = \<lparr>stdout = [''No READ/WRITE test data found''], saved = []\<rparr>
            else plot_types E (argv ! 1) d (sort (map fst d)) \<lparr>stdout = [], saved = []\<rparr> = (st, Returned)"
    by blast
  from assms(6) obtain r where r: "r \<in> set rows" "r ''bench_type'' = Some (PyStr b)" by blast
  have key: "b \<in> fst ` set d" by (rule present_type_is_key[OF d r assms(5)])
  then have "d \<noteq> []" by auto
  with pt have "plot_types E (argv ! 1) d (sort (map fst d)) \<lparr>stdout = [], saved = []\<rparr> = (st, Returned)"
    by simp
  note R = plot_types_Returned[OF this]
  have bs: "b \<in> set (sort (map fst d))" using key by simp
  with R obtain res where res: "plot_one E (argv ! 1) d b = Inr res" by blast
  have "res \<noteq> None"
    using plot_one_not_None[OF read_rows_parsed[OF d] key, of E "argv ! 1"] res by auto
  then obtain p fig where pf: "plot_one E (argv ! 1) d b = Inr (Some (p, fig))"
    using res by (cases res) auto
  from plot_oneD[OF pf] have sup: "suptitle fig = ''ZKBench Metrics - '' @ b @ '' Operations''"
    and p: "p = output_path (argv ! 1) b" by blast+
  have p': "p = stem @ ''_'' @ b @ ''_metrics.png''"
    unfolding p assms(3) by (rule output_path_dat[OF assms(4)])
  have mem: "(p, fig) \<in> set (figures E (argv ! 1) d (sort (map fst d)))"
    by (rule figures_member[OF bs pf])
  then have "(p, fig) \<in> set (saved st)" using R by simp
  moreover have "''Saved: '' @ p \<in> set (stdout st)"
    using R mem by force
  ultimately show ?thesis using sup unfolding p' by blast
qed

theorem image_name_for_dat_path_witness:
  "(\<exists>fig. (''summary_WRITE_metrics.png'', fig) \<in>
            set (saved (fst (main (example_env ''summary.dat'' mixed_rows)
                               [''plot_bench_metrics.py'', ''summary.dat''])))) \<and>
   ''Saved: summary_WRITE_metrics.png'' \<in>
     set (stdout (fst (main (example_env ''summary.dat'' mixed_rows)
                         [''plot_bench_metrics.py'', ''summary.dat''])))"
proof -
  have rows: "csv_rows (example_env ''summary.dat'' mixed_rows)
                ([''plot_bench_metrics.py'', ''summary.dat''] ! 1) = Some mixed_rows"
    by (simp add: example_env_def)
  have present: "\<exists>r \<in> set mixed_rows. r ''bench_type'' = Some (PyStr ''WRITE'')"
    by (simp add: mixed_rows_def example_rows_def csv_row_def)
  show ?thesis
    using image_name_for_dat_path[OF mixed_run rows, of "''summary''" "''WRITE''"] present
    by (simp add: mixed_run)
qed

text \<open>A path without \<open>.dat\<close> is its own output path: \<open>savefig\<close> is called with
  the input path, and that path is printed.\<close>

theorem image_name_without_dat_is_input_path:
  "output_path ''summary.csv'' ''READ'' = ''summary.csv'' \<and>
   main (example_env ''summary'' example_rows) [''plot_bench_metrics.py'', ''summary''] =
     (\<lparr>stdout = [''Saved: summary''],
       saved =
         [(''summary'',
           \<lparr>suptitle = ''ZKBench Metrics - READ Operations'',
            time_seconds = [0],
            plotted = \<lparr>timestamps = [Aware 1735689600123000], avg_lats = [15],
                       max_lats = [30], p99_lats = [20], throughputs = [150]\<rparr>\<rparr>)]\<rparr>,
      Returned)"
  by code_simp

text \<open>
  C4 (amended). In a run of Plotter A that does not raise, the number of figures saved
  (calls of \<open>savefig\<close>) is the number of distinct accepted operation types (READ, WRITE)
  among the rows, at most 2, and the run is the same as on the file with every row of
  another operation type removed. When the input path contains \<open>.dat\<close> the figures go to
  distinct paths, so the number of images is that number; when it does not, every figure
  goes to the input path itself.
\<close>

theorem one_image_per_accepted_type:
  assumes "main E argv = (st, out)" and "out = Returned \<or> out = SysExit 0"
    and "csv_rows E (argv ! 1) = Some rows"
  shows "length (saved st) =
           card ((\<lambda>r. r ''bench_type'') ` set rows \<inter>
                 {Some (PyStr ''READ''), Some (PyStr ''WRITE'')}) \<and>
         length (saved st) \<le> 2 \<and>
         (contains_str ''.dat'' (argv ! 1) \<longrightarrow> distinct (map fst (saved st))) \<and>
         (contains_str ''.dat'' (argv ! 1) \<longrightarrow>
            card (fst ` set (saved st)) =
              card ((\<lambda>r. r ''bench_type'') ` set rows \<inter>
                    {Some (PyStr ''READ''), Some (PyStr ''WRITE'')})) \<and>
         (\<not> contains_str ''.dat'' (argv ! 1) \<longrightarrow> fst ` set (saved st) \<subseteq> {argv ! 1}) \<and>
         main (E\<lparr>csv_rows := (csv_rows E)(argv ! 1 \<mapsto> filter accepted rows)\<rparr>) argv =
           main E argv"
proof -
  from main_not_raised[OF assms] obtain d where
    d: "read_rows E rows [] = Inr d"
    and pt: "if d = [] then st = \<lparr>stdout = [''No READ/WRITE test data found''], saved = []\<rparr>
            else plot_types E (argv ! 1) d (sort (map fst d)) \<lparr>stdout = [], saved = []\<rparr> = (st, Returned)"
    by blast
  let ?T = "(\<lambda>r. r ''bench_type'') ` set rows \<inter> {Some (PyStr ''READ''), Some (PyStr ''WRITE'')}"
  have paths: "map fst (saved st) = map (output_path (argv ! 1)) (sort (map fst d))"
  proof (cases "d = []")
    case True
    with pt show ?thesis by simp
  next
    case False
    with pt have "plot_types E (argv ! 1) d (sort (map fst d)) \<lparr>stdout = [], saved = []\<rparr> = (st, Returned)"
      by simp
    from returned_paths[OF d this] show ?thesis by simp
  qed
  have "length (saved st) = length (map fst (saved st))" by simp
  also have "\<dots> = length d" unfolding paths by simp
  finally have len: "length (saved st) = card ?T"
    using card_types_present[OF d] by simp
  have "card ?T \<le> card {Some (PyStr ''READ''), Some (PyStr ''WRITE'')}"
    by (rule card_mono) auto
  then have le: "card ?T \<le> 2" by simp
  have dist: "distinct (map fst (saved st))" if c: "contains_str ''.dat'' (argv ! 1)"
  proof -
    have keys: "set (sort (map fst d)) \<subseteq> {''READ'', ''WRITE''}"
      using key_is_present_type[OF d] by auto
    have "inj_on (output_path (argv ! 1)) {''READ'', ''WRITE''}"
      using output_path_read_write[OF c] by (auto simp: inj_on_def)
    then have "inj_on (output_path (argv ! 1)) (set (sort (map fst d)))"
      using keys by (rule inj_on_subset)
    moreover have "distinct (sort (map fst d))"
      using groupedD(1)[OF read_rows_parsed[OF d]] by simp
    ultimately show ?thesis unfolding paths by (simp add: distinct_map)
  qed
  have cardp: "card (fst ` set (saved st)) = card ?T" if c: "contains_str ''.dat'' (argv ! 1)"
  proof -
    have "card (set (map fst (saved st))) = length (map fst (saved st))"
      by (rule distinct_card[OF dist[OF c]])
    then show ?thesis using len by simp
  qed
  have same: "fst ` set (saved st) \<subseteq> {argv ! 1}" if c: "\<not> contains_str ''.dat'' (argv ! 1)"
  proof -
    have "set (map fst (saved st)) \<subseteq> {argv ! 1}"
      unfolding paths using output_path_no_dat[OF c] by auto
    then show ?thesis by simp
  qed
  show ?thesis
    using len le dist cardp same main_filter_accepted[OF assms(3) d] by simp
qed



theorem one_image_per_accepted_type_witness:
  "length (saved (fst (main (example_env ''summary.dat'' mixed_rows)
                          [''plot_bench_metrics.py'', ''summary.dat'']))) = 2 \<and>
   card (fst ` set (saved (fst (main (example_env ''summary.dat'' mixed_rows)
                                  [''plot_bench_metrics.py'', ''summary.dat''])))) = 2 \<and>
   card ((\<lambda>r. r ''bench_type'') ` set mixed_rows \<inter>
         {Some (PyStr ''READ''), Some (PyStr ''WRITE'')}) = 2 \<and>
   length (filter accepted mixed_rows) = 4 \<and> length mixed_rows = 5 \<and>
   main (example_env ''summary.dat'' (filter accepted mixed_rows))
     [''plot_bench_metrics.py'', ''summary.dat''] =
   main (example_env ''summary.dat'' mixed_rows) [''plot_bench_metrics.py'', ''summary.dat'']"
proof -
  let ?E = "example_env ''summary.dat'' mixed_rows"
  let ?argv = "[''plot_bench_metrics.py'', ''summary.dat'']"
  have rows: "csv_rows ?E (?argv ! 1) = Some mixed_rows"
    by (simp add: example_env_def)
  have E': "?E\<lparr>csv_rows := (csv_rows ?E)(?argv ! 1 \<mapsto> filter accepted mixed_rows)\<rparr> =
              example_env ''summary.dat'' (filter accepted mixed_rows)"
    by (simp add: example_env_def)
  have f: "length (filter accepted mixed_rows) = 4 \<and> length mixed_rows = 5"
    by (simp add: mixed_rows_def example_rows_def csv_row_def accepted_def)
  have c: "contains_str ''.dat'' (?argv ! 1)" by simp
  from one_image_per_accepted_type[OF mixed_run _ rows] c
  show ?thesis unfolding E' using f by (simp add: mixed_run)
qed

text \<open>On the path \<open>summary\<close> the two operation types of the longer file are both saved
  under \<open>summary\<close>: two types, one image path.\<close>

theorem two_types_one_image_path:
  "snd (main (example_env ''summary'' mixed_rows) [''plot_bench_metrics.py'', ''summary''])
     = Returned \<and>
   map fst (saved (fst (main (example_env ''summary'' mixed_rows)
                          [''plot_bench_metrics.py'', ''summary'']))) = [''summary'', ''summary''] \<and>
   card (fst ` set (saved (fst (main (example_env ''summary'' mixed_rows)
                                  [''plot_bench_metrics.py'', ''summary''])))) = 1 \<and>
   card ((\<lambda>r. r ''bench_type'') ` set mixed_rows \<inter>
         {Some (PyStr ''READ''), Some (PyStr ''WRITE'')}) = 2"
proof -
  have run: "snd (main (example_env ''summary'' mixed_rows) [''plot_bench_metrics.py'', ''summary''])
       = Returned \<and>
     map fst (saved (fst (main (example_env ''summary'' mixed_rows)
                          [''plot_bench_metrics.py'', ''summary'']))) = [''summary'', ''summary'']"
    by code_simp
  then have "fst ` set (saved (fst (main (example_env ''summary'' mixed_rows)
                          [''plot_bench_metrics.py'', ''summary'']))) = {''summary''}"
    by (simp flip: set_map)
  then have one: "card (fst ` set (saved (fst (main (example_env ''summary'' mixed_rows)
                                  [''plot_bench_metrics.py'', ''summary''])))) = 1"
    by simp
  have two: "card ((\<lambda>r. r ''bench_type'') ` set mixed_rows \<inter>
         {Some (PyStr ''READ''), Some (PyStr ''WRITE'')}) = 2"
    by (simp add: mixed_rows_def example_rows_def csv_row_def)
  from run one two show ?thesis by simp
qed

text \<open>
  C5. For every figure Plotter A saves, the relative seconds on its x axis (each
  timestamp of the operation type minus the earliest one) are non-decreasing and begin
  with 0.
\<close>

theorem relative_seconds_monotone:
  assumes "main E argv = (st, out)" and "(path, fig) \<in> set (saved st)"
  shows "time_seconds fig \<noteq> [] \<and> hd (time_seconds fig) = 0 \<and> sorted (time_seconds fig)"
proof -
  from main_saved[OF assms] obtain d b where
    "plot_one E (argv ! 1) d b = Inr (Some (path, fig))" by blast
  then show ?thesis by (rule plot_one_time_seconds)
qed

theorem relative_seconds_monotone_witness:
  "\<exists>path fig.
     (path, fig) \<in> set (saved (fst (main (example_env ''summary.dat'' mixed_rows)
                                     [''plot_bench_metrics.py'', ''summary.dat'']))) \<and>
     time_seconds fig = [0, 2377 / 1000] \<and>
     hd (time_seconds fig) = 0 \<and> sorted (time_seconds fig)"
proof -
  let ?fig = "\<lparr>suptitle = ''ZKBench Metrics - READ Operations'',
            time_seconds = [0, 2377 / 1000],
            plotted = \<lparr>timestamps = [Aware 1735689600123000, Aware 1735689602500000],
                       avg_lats = [15, 40], max_lats = [30, 40], p99_lats = [20, 40],
                       throughputs = [150, 100]\<rparr>\<rparr>"
  have "hd (time_seconds ?fig) = 0 \<and> sorted (time_seconds ?fig)"
    using relative_seconds_monotone[OF mixed_run, of "''summary_READ_metrics.png''" ?fig]
    by simp
  then show ?thesis
    unfolding mixed_run by (intro exI[of _ "''summary_READ_metrics.png''"] exI[of _ ?fig]) simp
qed

text \<open>
  C6. When every row of the input file has an operation type outside READ and WRITE
  (the column being present), Plotter A prints \<open>No READ/WRITE test data found\<close>, ends
  with \<open>sys.exit(0)\<close>, and saves no figure.
\<close>

theorem no_accepted_rows_exit_zero:
  assumes "2 \<le> length argv" and "csv_rows E (argv ! 1) = Some rows"
    and "\<forall>r \<in> set rows. r ''bench_type'' \<noteq> None \<and> \<not> accepted r"
  shows "main E argv =
           (\<lparr>stdout = [''No READ/WRITE test data found''], saved = []\<rparr>, SysExit 0) \<and>
         exit_status (snd (main E argv)) = 0"
  using assms(1,2) read_rows_rejected[OF assms(3), of E "[]"]
  by (simp add: main_def)

theorem no_accepted_rows_exit_zero_witness:
  "main (example_env ''summary.dat''
           [csv_row ''CREATE'' ''yesterday'' ''fast'' ''fast'' ''fast'' ''many'',
            (csv_row ''READ'' ''t'' ''1'' ''2'' ''3'' ''4'')(''bench_type'' \<mapsto> PyNone)])
        [''plot_bench_metrics.py'', ''summary.dat''] =
     (\<lparr>stdout = [''No READ/WRITE test data found''], saved = []\<rparr>, SysExit 0)"
  using no_accepted_rows_exit_zero[of "[''plot_bench_metrics.py'', ''summary.dat'']"
          "example_env ''summary.dat''
           [csv_row ''CREATE'' ''yesterday'' ''fast'' ''fast'' ''fast'' ''many'',
            (csv_row ''READ'' ''t'' ''1'' ''2'' ''3'' ''4'')(''bench_type'' \<mapsto> PyNone)]"
          "[csv_row ''CREATE'' ''yesterday'' ''fast'' ''fast'' ''fast'' ''many'',
            (csv_row ''READ'' ''t'' ''1'' ''2'' ''3'' ''4'')(''bench_type'' \<mapsto> PyNone)]"]
  by (simp add: example_env_def csv_row_def accepted_def)

text \<open>
  C7. For a metrics frame with at least one row, \<open>start_time\<close> is the earliest timestamp
  of the frame, the relative seconds of each row are its timestamp minus \<open>start_time\<close>
  (nanoseconds divided by 10^9), and a run that returns prints, as its third line,
  \<open>Total test duration: \<close>, the largest relative time with one decimal, and \<open> seconds\<close>:
  the number printed has one digit after the point and lies within 0.05 of the float64
  of the largest relative time, which lies within a relative 2^-53 of it. Metrics from
  \<open>T0\<close> to \<open>T0 + 60 s\<close> print \<open>Total test duration: 60.0 seconds\<close>.
\<close>

theorem start_time_and_total_duration:
  assumes "load_frames B (prefix @ ''gradual_overload_metrics.csv'')
             (prefix @ ''phase_transitions.csv'') = Inr (mf, pf)"
    and "m_rows mf \<noteq> []" and "main_b B prefix = (st, Returned)"
  shows "\<exists>t0 ip fd.
           start_time mf = Some t0 \<and> t0 \<in> m_timestamp ` set (m_rows mf) \<and>
           (\<forall>r \<in> set (m_rows mf). t0 \<le> m_timestamp r) \<and>
           m_time_seconds mf =
             map (\<lambda>r. of_int (m_timestamp r - t0) / 1000000000) (m_rows mf) \<and>
           printed st ! 2 =
             ''Total test duration: '' @
             format_f 1 (Num (Max (set (m_time_seconds mf)))) @ '' seconds'' \<and>
           printed st ! 2 = ''Total test duration: '' @ ip @ ''.'' @ fd @ '' seconds'' \<and>
           length fd = 1 \<and>
           \<bar>of_int (digits_value ip) + of_int (digits_value fd) / 10
              - float64_of (Max (set (m_time_seconds mf)))\<bar> \<le> 1 / 20 \<and>
           \<bar>float64_of (Max (set (m_time_seconds mf))) - Max (set (m_time_seconds mf))\<bar>
              \<le> Max (set (m_time_seconds mf)) / 2 ^ 53"
proof -
  let ?M = "Max (set (m_time_seconds mf))"
  note S = start_time_Some[OF assms(2)]
  have ts: "m_time_seconds mf =
              map (\<lambda>r. of_int (m_timestamp r - Min (m_timestamp ` set (m_rows mf))) / 1000000000)
                (m_rows mf)"
    by (simp add: m_time_seconds_def S(1))
  then have ne: "m_time_seconds mf \<noteq> []" using assms(2) by simp
  have "printed st ! 2 = summary mf ! 1"
    unfolding main_b_Returned[OF assms(3,1)] by simp
  also have "\<dots> = ''Total test duration: '' @ format_f 1 (Num ?M) @ '' seconds''"
    using ne by (simp add: summary_def col_max_def)
  finally have line: "printed st ! 2 =
      ''Total test duration: '' @ format_f 1 (Num ?M) @ '' seconds''" .
  have M: "0 \<le> ?M" by (rule time_seconds_Max_nonneg[OF assms(2)])
  from format_f_one_decimal[OF M] obtain ip fd where
    f: "format_f 1 (Num ?M) = ip @ ''.'' @ fd" and len: "length fd = 1"
    and close: "\<bar>of_int (digits_value ip) + of_int (digits_value fd) / 10 - float64_of ?M\<bar> \<le> 1 / 20"
    by blast
  have line': "printed st ! 2 = ''Total test duration: '' @ ip @ ''.'' @ fd @ '' seconds''"
    unfolding line f by simp
  have fl: "\<bar>float64_of ?M - ?M\<bar> \<le> ?M / 2 ^ 53"
    using float64_of_close[of ?M] M by simp
  have all: "\<forall>r \<in> set (m_rows mf). Min (m_timestamp ` set (m_rows mf)) \<le> m_timestamp r"
    using S(3) by blast
  show ?thesis
    using S(1,2) all ts line line' len close fl by blast
qed

theorem start_time_and_total_duration_witness:
  "start_time example_metrics = Some 1735689600000000000 \<and>
   m_time_seconds example_metrics = [0, 60] \<and>
   snd (main_b (example_benv example_metrics example_phases) ''run-'') = Returned \<and>
   printed (fst (main_b (example_benv example_metrics example_phases) ''run-'')) ! 2 =
     ''Total test duration: 60.0 seconds'' \<and>
   m_time_seconds short_metrics = [0, 7 / 20] \<and>
   printed (fst (main_b (example_benv short_metrics example_phases) ''run-'')) ! 2 =
     ''Total test duration: 0.3 seconds''"
proof -
  let ?B = "example_benv example_metrics example_phases"
  have ld: "load_frames ?B (''run-'' @ ''gradual_overload_metrics.csv'')
             (''run-'' @ ''phase_transitions.csv'') = Inr (example_metrics, example_phases)"
    by (simp add: example_benv_def)
  have ne: "m_rows example_metrics \<noteq> []" by (simp add: example_metrics_def)
  have out: "snd (main_b ?B ''run-'') = Returned" by code_simp
  then have run: "main_b ?B ''run-'' = (fst (main_b ?B ''run-''), Returned)"
    by (simp add: prod_eq_iff)
  have st: "start_time example_metrics = Some 1735689600000000000" by code_simp
  have ts: "m_time_seconds example_metrics = [0, 60]" by code_simp
  have f: "format_f 1 (Num 60) = ''60.0''" by code_simp
  have short: "m_time_seconds short_metrics = [0, 7 / 20] \<and>
     printed (fst (main_b (example_benv short_metrics example_phases) ''run-'')) ! 2 =
       ''Total test duration: 0.3 seconds''"
    by code_simp
  from start_time_and_total_duration[OF ld ne run]
  have "printed (fst (main_b ?B ''run-'')) ! 2 =
          ''Total test duration: '' @ format_f 1 (Num (Max (set (m_time_seconds example_metrics)))) @ '' seconds''"
    by blast
  then have "printed (fst (main_b ?B ''run-'')) ! 2 = ''Total test duration: 60.0 seconds''"
    unfolding ts using f by simp
  with st ts out short show ?thesis by simp
qed

text \<open>
  C8. Every group the reading loop leaves in the dictionary holds at least one sample,
  and its four lists have the same length; so each mean divides by a positive count,
  and the aggregation loop over the sorted timestamps of an operation type ends without
  \<open>ZeroDivisionError\<close>.
\<close>

theorem groups_nonempty_equal_length:
  assumes "read_rows E rows [] = Inr d" and "(b, inner) \<in> set d" and "(ts, g) \<in> set inner"
  shows "0 < length (avg_lat g) \<and> length (max_lat g) = length (avg_lat g) \<and>
         length (p99_lat g) = length (avg_lat g) \<and>
         length (throughput g) = length (avg_lat g) \<and>
         py_mean (avg_lat g) = Inr (mean (avg_lat g)) \<and>
         py_mean (max_lat g) = Inr (mean (max_lat g)) \<and>
         py_mean (p99_lat g) = Inr (mean (p99_lat g)) \<and>
         (\<forall>tss. sorted_dt (map fst inner) = Inr tss \<longrightarrow>
                (\<exists>s. aggregate inner tss empty_series = Inr s))"
proof -
  have G: "grouped d (parsed E rows)" by (rule read_rows_parsed[OF assms(1)])
  have inner: "dd_get [] d b = inner"
    by (rule dd_get_member[OF groupedD(1)[OF G] assms(2)])
  have "distinct (map fst inner)" using groupedD(3)[OF G, of b] inner by simp
  then have g: "dd_get empty_group inner ts = g"
    using assms(3) by (rule dd_get_member)
  have "ts \<in> fst ` set (dd_get [] d b)" using assms(3) inner by force
  from grouped_group_at[OF G this] g inner
  have g': "g = group_of (matching b ts (parsed E rows))"
    and ne: "matching b ts (parsed E rows) \<noteq> []" by simp_all
  have agg: "\<exists>s. aggregate inner tss empty_series = Inr s" if "sorted_dt (map fst inner) = Inr tss" for tss
  proof -
    have "set tss \<subseteq> fst ` set (dd_get [] d b)"
      using set_sorted_dt[OF that] inner by simp
    from aggregate_grouped[OF G this] inner show ?thesis by simp
  qed
  show ?thesis
    using ne agg unfolding g' by (simp add: group_of_def py_mean_def mean_def)
qed

theorem groups_nonempty_equal_length_witness:
  "\<exists>d inner g.
     read_rows (example_env ''summary.dat'' example_rows) example_rows [] = Inr d \<and>
     (''READ'', inner) \<in> set d \<and> (Aware 1735689600123000, g) \<in> set inner \<and>
     avg_lat g = [10, 20] \<and> max_lat g = [20, 40] \<and> p99_lat g = [15, 25] \<and>
     throughput g = [100, 50] \<and> py_mean (avg_lat g) = Inr 15"
proof -
  let ?g = "\<lparr>avg_lat = [10, 20], max_lat = [20, 40], p99_lat = [15, 25], throughput = [100, 50 :: rat]\<rparr>"
  let ?inner = "[(Aware 1735689600123000, ?g)]"
  let ?d = "[(''READ'', ?inner)]"
  have rd: "read_rows (example_env ''summary.dat'' example_rows) example_rows [] = Inr ?d"
    by code_simp
  have "py_mean (avg_lat ?g) = Inr (mean (avg_lat ?g))"
    using groups_nonempty_equal_length[OF rd, of "''READ''" ?inner "Aware 1735689600123000" ?g]
    by simp
  then have "py_mean (avg_lat ?g) = Inr 15" by (simp add: mean_def)
  with rd show ?thesis
    by (intro exI[of _ ?d] exI[of _ ?inner] exI[of _ ?g]) simp
qed

text \<open>
  C9. With a phase table that has no rows, and the metrics columns \<open>throughput\<close>,
  \<open>avg_latency_ms\<close> and \<open>workload\<close> present, Plotter B draws no vertical marker, no phase
  label and no shaded interval, saves the figure under \<open>prefix\<close>\<open>visualization.png\<close>,
  prints that path and the summary, and returns.
\<close>

theorem empty_phase_table_still_renders:
  assumes "load_frames B (prefix @ ''gradual_overload_metrics.csv'')
             (prefix @ ''phase_transitions.csv'') = Inr (mf, pf)"
    and "p_rows pf = []"
    and "''throughput'' \<in> set (m_columns mf)" and "''avg_latency_ms'' \<in> set (m_columns mf)"
    and "''workload'' \<in> set (m_columns mf)"
    and "savefig_b B (prefix @ ''visualization.png'') = None"
  shows "\<exists>ds. main_b B prefix =
               (\<lparr>printed = (''Visualization written to '' @ prefix @ ''visualization.png'')
                            # summary mf,
                 written = [(prefix @ ''visualization.png'', ds)]\<rparr>, Returned) \<and>
              (\<forall>d \<in> set ds. \<not> is_phase_mark d) \<and>
              summary mf ! 0 = [CHR 0x0A] @ ''=== Test Summary ==='' \<and>
              summary mf ! 1 = ''Total test duration: '' @
                 format_f 1 (col_max (m_time_seconds mf)) @ '' seconds''"
proof -
  from render_no_phases[OF assms(2,3,4,5)] obtain ds where
    ds: "render mf pf = Inr ds" and m: "\<forall>d \<in> set ds. \<not> is_phase_mark d" by blast
  have "main_b B prefix =
               (\<lparr>printed = (''Visualization written to '' @ prefix @ ''visualization.png'')
                            # summary mf,
                 written = [(prefix @ ''visualization.png'', ds)]\<rparr>, Returned)"
    using assms(1,6) ds by (simp add: main_b_def Let_def)
  moreover have "summary mf ! 0 = [CHR 0x0A] @ ''=== Test Summary ==='' \<and>
              summary mf ! 1 = ''Total test duration: '' @
                 format_f 1 (col_max (m_time_seconds mf)) @ '' seconds''"
    by (simp add: summary_def)
  ultimately show ?thesis using m by blast
qed

theorem empty_phase_table_still_renders_witness:
  "main_b (example_benv example_metrics (example_phases\<lparr>p_rows := []\<rparr>)) ''run-'' =
     (\<lparr>printed =
         [''Visualization written to run-visualization.png'',
          [CHR 0x0A] @ ''=== Test Summary ==='',
          ''Total test duration: 60.0 seconds'',
          ''Peak throughput: 150.12 ops/sec'',
          ''Maximum latency: 3.50 ms'',
          ''Failure detected at workload: 120 requests''],
       written =
         [(''run-visualization.png'',
           [Plot 0 [0, 60] [100, 1201 / 8] ''Throughput'',
            Plot 1 [0, 60] [5 / 2, 7 / 2] ''Avg Latency'',
            Plot 2 [0, 60] [10, 120] ''Workload'',
            Annotate (''Failure'' @ [CHR 0x0A] @ ''120 req'') (60, 1201 / 8) (50, 3603 / 20)])]\<rparr>,
      Returned)"
proof -
  let ?pf = "example_phases\<lparr>p_rows := []\<rparr>"
  let ?B = "example_benv example_metrics ?pf"
  have ld: "load_frames ?B (''run-'' @ ''gradual_overload_metrics.csv'')
             (''run-'' @ ''phase_transitions.csv'') = Inr (example_metrics, ?pf)"
    by (simp add: example_benv_def)
  have sv: "savefig_b ?B (''run-'' @ ''visualization.png'') = None"
    by (simp add: example_benv_def)
  have cols: "''throughput'' \<in> set (m_columns example_metrics)"
    "''avg_latency_ms'' \<in> set (m_columns example_metrics)"
    "''workload'' \<in> set (m_columns example_metrics)"
    by (simp_all add: example_metrics_def)
  from empty_phase_table_still_renders[OF ld _ cols sv]
  obtain ds where "main_b ?B ''run-'' =
      (\<lparr>printed = (''Visualization written to '' @ ''run-'' @ ''visualization.png'')
                            # summary example_metrics,
         written = [(''run-'' @ ''visualization.png'', ds)]\<rparr>, Returned)"
    by auto
  moreover have "main_b ?B ''run-'' =
     (\<lparr>printed =
         [''Visualization written to run-visualization.png'',
          [CHR 0x0A] @ ''=== Test Summary ==='',
          ''Total test duration: 60.0 seconds'',
          ''Peak throughput: 150.12 ops/sec'',
          ''Maximum latency: 3.50 ms'',
          ''Failure detected at workload: 120 requests''],
       written =
         [(''run-visualization.png'',
           [Plot 0 [0, 60] [100, 1201 / 8] ''Throughput'',
            Plot 1 [0, 60] [5 / 2, 7 / 2] ''Avg Latency'',
            Plot 2 [0, 60] [10, 120] ''Workload'',
            Annotate (''Failure'' @ [CHR 0x0A] @ ''120 req'') (60, 1201 / 8) (50, 3603 / 20)])]\<rparr>,
      Returned)"
    by code_simp
  ultimately show ?thesis by simp
qed

text \<open>
  C10. With exact arithmetic, Plotter A does not depend on the order of the rows: when
  every accepted row of the file parses, the run on any permutation of the rows prints
  the same lines and saves the same figures, so each aggregated point (the means of the
  latencies, the sum of the throughputs) is unchanged.
\<close>

theorem aggregation_order_insensitive:
  assumes "csv_rows E (argv ! 1) = Some rows" and "mset rows' = mset rows"
    and "read_rows E rows [] = Inr d"
  shows "(\<exists>d'. read_rows E rows' [] = Inr d') \<and>
         mset (parsed E rows') = mset (parsed E rows) \<and>
         main (E\<lparr>csv_rows := (csv_rows E)(argv ! 1 \<mapsto> rows')\<rparr>) argv = main E argv"
proof -
  have "set rows' = set rows" using assms(2) by (rule mset_eq_setD)
  then have "\<forall>r \<in> set rows'. \<exists>opt. parse_row E r = Inr opt"
    using read_rows_all_parse[OF assms(3)] by blast
  from read_rows_succeeds[OF this] obtain d' where d': "read_rows E rows' [] = Inr d'"
    by blast
  note G = read_rows_parsed[OF assms(3)] and G' = read_rows_parsed[OF d']
  note M = mset_parsed_cong[OF assms(2), of E]
  have p: "plot_types E (argv ! 1) d' bs st = plot_types E (argv ! 1) d bs st" for bs st
    by (rule plot_types_cong) (rule plot_one_grouped_cong[OF G G' M])
  note K = grouped_keys_cong[OF G G' M]
  have "main (E\<lparr>csv_rows := (csv_rows E)(argv ! 1 \<mapsto> rows')\<rparr>) argv = main E argv"
    using assms(1,3) d' p K by (simp add: main_def Let_def)
  with d' M show ?thesis by blast
qed

theorem aggregation_order_insensitive_witness:
  "main (example_env ''summary.dat'' (rev mixed_rows)) [''plot_bench_metrics.py'', ''summary.dat''] =
   main (example_env ''summary.dat'' mixed_rows) [''plot_bench_metrics.py'', ''summary.dat''] \<and>
   rev mixed_rows \<noteq> mixed_rows \<and>
   length (saved (fst (main (example_env ''summary.dat'' mixed_rows)
                          [''plot_bench_metrics.py'', ''summary.dat'']))) = 2"
proof -
  let ?E = "example_env ''summary.dat'' mixed_rows"
  let ?argv = "[''plot_bench_metrics.py'', ''summary.dat'']"
  have rows: "csv_rows ?E (?argv ! 1) = Some mixed_rows"
    by (simp add: example_env_def)
  have "\<not> isl (read_rows ?E mixed_rows [])" by code_simp
  then obtain d where d: "read_rows ?E mixed_rows [] = Inr d"
    by (cases "read_rows ?E mixed_rows []") simp_all
  have E': "?E\<lparr>csv_rows := (csv_rows ?E)(?argv ! 1 \<mapsto> rev mixed_rows)\<rparr> =
              example_env ''summary.dat'' (rev mixed_rows)"
    by (simp add: example_env_def)
  have ne: "rev mixed_rows \<noteq> mixed_rows"
  proof
    assume "rev mixed_rows = mixed_rows"
    then have "hd (rev mixed_rows) ''throughput'' = hd mixed_rows ''throughput''" by simp
    then show False by (simp add: mixed_rows_def example_rows_def csv_row_def)
  qed
  from aggregation_order_insensitive[OF rows _ d, of "rev mixed_rows"]
  show ?thesis unfolding E' using ne by (simp add: mixed_run)
qed

end
